theory Spec2Isabelle
  imports Complex_Main
begin

section \<open>Values exchanged with the reporting client\<close>

text \<open>
  A \<open>UUID\<close> is a JavaScript string. The reporter tests identifiers with \<open>if (x)\<close>, which
  is false for \<open>undefined\<close> and for the empty string, so a possibly missing identifier is a
  \<open>uuid option\<close> and its truthiness is written out. A thrown value is represented by its
  message.
\<close>

type_synonym uuid = string
type_synonym exn = string

text \<open>
  A JavaScript string is the list of its code units, a \<open>char\<close> holding a code unit below
  256. The definitions below compare characters with ASCII characters only; what
  depends on the class of a character (\<open>trim\<close>) is left to the runtime.
\<close>

text \<open>\<open>truthyOf v\<close> is the string \<open>v\<close> when \<open>if (v)\<close> takes the branch.\<close>

definition truthyOf :: "string option \<Rightarrow> string option" where
  "truthyOf v = (case v of None \<Rightarrow> None | Some s \<Rightarrow> if s = [] then None else Some s)"

datatype test_status = PASSED | FAILED | SKIPPED | TIMED_OUT | STOPPED
datatype test_type = TEST | BEFORE | AFTER
datatype log_level = INFO | ERROR
datatype log_format = PLAIN_TEXT | MARKDOWN

text \<open>
  \<open>testStatusMap\<close> is a plain object literal read with \<open>testStatusMap[result.state]\<close>.
  Such a read finds the four own properties and, for any other key, walks the prototype
  chain: the names that every plain object inherits from \<open>Object.prototype\<close> yield a
  function (or, for \<open>__proto__\<close>, the prototype object), all of them truthy values that are
  no status.
\<close>

datatype status_value = Status test_status | Inherited string

definition objectPrototypeKeys :: "string list" where
  "objectPrototypeKeys =
     [''constructor'', ''__proto__'', ''hasOwnProperty'', ''isPrototypeOf'',
      ''propertyIsEnumerable'', ''toLocaleString'', ''toString'', ''valueOf'',
      ''__defineGetter__'', ''__defineSetter__'', ''__lookupGetter__'', ''__lookupSetter__'']"

definition testStatusMap :: "string \<Rightarrow> status_value option" where
  "testStatusMap k =
     (if k = ''passed'' then Some (Status PASSED)
      else if k = ''failed'' then Some (Status FAILED)
      else if k = ''skipped'' then Some (Status SKIPPED)
      else if k = ''pending'' then Some (Status SKIPPED)
      else if k \<in> set objectPrototypeKeys then Some (Inherited k)
      else None)"

text \<open>
  The calls the client receives, with the arguments the reporter passes. Time stamps
  (\<open>getTime()\<close>) are left out: they are read from the clock. \<open>testRunUUID\<close> is the
  reporter's \<open>testRunId\<close> field, which is \<open>undefined\<close> until a run was started.
\<close>

record client_config =
  testset :: string
  description :: "string option"
  attributes :: "(string \<times> string) list"

datatype call =
    StartTestRun string string "(string \<times> string) list"
      \<comment> \<open>testSetName, description, attributes\<close>
  | FinishTestRun "uuid option"
  | StartSuite "uuid option" "uuid option" "string list"
      \<comment> \<open>testRunUUID, parentSuiteUUID, suiteNames\<close>
  | StartTest test_type "uuid option" "uuid option" string string
      \<comment> \<open>testType, testRunUUID, suiteUUID, testName, description\<close>
  | FinishTest uuid "uuid option" status_value
      \<comment> \<open>testUUID, testRunUUID, status\<close>
  | Log log_format log_level string "uuid option" uuid
      \<comment> \<open>logFormat, logLevel, message, testRunUUID, testUUID\<close>
  | SendAttachment string string string "uuid option" uuid uuid
      \<comment> \<open>file name, content, contentType, testRunUUID, testUUID, logUUID\<close>

text \<open>
  The client is an external collaborator. It is modelled by what it answers: each
  operation is a function of the whole history of calls received so far (the current
  call last), and either throws or returns.
\<close>

record client =
  config :: client_config
  startTestRun_r :: "call list \<Rightarrow> exn + uuid"
  finishTestRun_r :: "call list \<Rightarrow> exn + unit"
  startSuite_r :: "call list \<Rightarrow> exn + uuid list"
  startTest_r :: "call list \<Rightarrow> exn + uuid"
  finishTest_r :: "call list \<Rightarrow> exn + unit"
  log_r :: "call list \<Rightarrow> exn + uuid"
  sendAttachment_r :: "call list \<Rightarrow> exn + unit"

section \<open>JavaScript values\<close>

text \<open>
  The coverage snapshot is typed \<open>unknown\<close>. The values considered are primitives (a
  number is a real, \<open>NaN\<close> or an infinity), arrays, objects with own data properties, and
  callable members. A callable member is given by
  what calling it yields: \<open>JFun0 r\<close> has the outcome \<open>r\<close> however it is called,
  \<open>JFun1 f\<close> has the outcome \<open>f s\<close> when called with the string \<open>s\<close> and throws when it is
  called with anything else.
\<close>

datatype jsval =
    JUndefined
  | JNull
  | JBool bool
  | JNum real
  | JNaN
  | JInfinity bool
  | JStr string
  | JArr "jsval list"
  | JObj "(string \<times> jsval) list"
  | JFun0 "exn + jsval"
  | JFun1 "string \<Rightarrow> exn + jsval"

fun truthy :: "jsval \<Rightarrow> bool" where
  "truthy JUndefined = False"
| "truthy JNull = False"
| "truthy (JBool b) = b"
| "truthy (JNum x) = (x \<noteq> 0)"
| "truthy JNaN = False"
| "truthy (JInfinity negative) = True"
| "truthy (JStr s) = (s \<noteq> [])"
| "truthy (JArr xs) = True"
| "truthy (JObj ps) = True"
| "truthy (JFun0 r) = True"
| "truthy (JFun1 f) = True"

text \<open>\<open>typeof v === 'number'\<close>\<close>

fun isNumber :: "jsval \<Rightarrow> bool" where
  "isNumber (JNum x) = True"
| "isNumber JNaN = True"
| "isNumber (JInfinity negative) = True"
| "isNumber v = False"

fun isFunction :: "jsval \<Rightarrow> bool" where
  "isFunction (JFun0 r) = True"
| "isFunction (JFun1 f) = True"
| "isFunction v = False"

fun nullish :: "jsval \<Rightarrow> bool" where
  "nullish JUndefined = True"
| "nullish JNull = True"
| "nullish v = False"

text \<open>
  \<open>v.k\<close>: a \<open>TypeError\<close> on \<open>undefined\<close> and \<open>null\<close>; the own property of an object when
  there is one (the first entry for a key wins); \<open>undefined\<close> otherwise. None of the
  property names the formatter reads is inherited from a built-in prototype of the
  values above.
\<close>

fun getProp :: "jsval \<Rightarrow> string \<Rightarrow> exn + jsval" where
  "getProp JUndefined k = Inl ''TypeError''"
| "getProp JNull k = Inl ''TypeError''"
| "getProp (JObj ps) k = (case map_of ps k of Some v \<Rightarrow> Inr v | None \<Rightarrow> Inr JUndefined)"
| "getProp v k = Inr JUndefined"

text \<open>\<open>v?.k\<close>\<close>

definition getPropOpt :: "jsval \<Rightarrow> string \<Rightarrow> exn + jsval" where
  "getPropOpt v k = (if nullish v then Inr JUndefined else getProp v k)"

text \<open>\<open>f()\<close> and \<open>f(arg)\<close>; calling something that is not callable is a \<open>TypeError\<close>.\<close>

fun call0 :: "jsval \<Rightarrow> exn + jsval" where
  "call0 (JFun0 r) = r"
| "call0 (JFun1 f) = Inl ''TypeError''"
| "call0 v = Inl ''TypeError''"

fun call1 :: "jsval \<Rightarrow> jsval \<Rightarrow> exn + jsval" where
  "call1 (JFun1 f) (JStr s) = f s"
| "call1 (JFun0 r) a = r"
| "call1 v a = Inl ''TypeError''"

text \<open>Sequencing of computations that may throw.\<close>

definition bindE :: "exn + 'a \<Rightarrow> ('a \<Rightarrow> exn + 'b) \<Rightarrow> exn + 'b" where
  "bindE m f = (case m of Inl e \<Rightarrow> Inl e | Inr x \<Rightarrow> f x)"

section \<open>Built-in operations of the runtime\<close>

text \<open>
  What the JavaScript runtime and the Node library compute is not part of the repository.
  Each built-in the code relies on is a parameter, and may throw:
  \<^item> \<open>toFixed1 v\<close> is \<open>v.toFixed(1)\<close>;
  \<^item> \<open>toStr v\<close> is the string a template literal puts for \<open>${v}\<close>;
  \<^item> \<open>numToString v\<close> is that string for a number \<open>v\<close>, where the conversion cannot throw;
  \<^item> \<open>stringOf v\<close> is \<open>String(v)\<close>;
  \<^item> \<open>trim s\<close> is \<open>s.trim()\<close>;
  \<^item> \<open>sortedElems v\<close> is the sequence \<open>for (const x of v.sort())\<close> runs through;
  \<^item> \<open>pathRelative v\<close> is \<open>path.relative(process.cwd(), v)\<close>;
  \<^item> \<open>jsonStringify v\<close> is \<open>JSON.stringify(v, null, 2)\<close>, \<open>None\<close> when it is \<open>undefined\<close>;
  \<^item> \<open>jsonStringifyPlain v\<close> is \<open>JSON.stringify(v)\<close>, \<open>None\<close> when it is \<open>undefined\<close>;
  \<^item> \<open>removeAnsi\<close> and \<open>ansiToMarkdown\<close> are the two string rewriters of \<open>utils\<close>, which
    only shape message texts;
  \<^item> \<open>getCodeSnippet\<close> and \<open>getBytes\<close> read the file system.
\<close>

record runtime =
  toFixed1 :: "jsval \<Rightarrow> exn + string"
  toStr :: "jsval \<Rightarrow> exn + string"
  numToString :: "jsval \<Rightarrow> string"
  stringOf :: "jsval \<Rightarrow> exn + string"
  trim :: "string \<Rightarrow> string"
  sortedElems :: "jsval \<Rightarrow> exn + jsval list"
  pathRelative :: "jsval \<Rightarrow> exn + string"
  jsonStringify :: "jsval \<Rightarrow> exn + string option"
  jsonStringifyPlain :: "jsval \<Rightarrow> exn + string option"
  removeAnsi :: "string \<Rightarrow> string"
  ansiToMarkdown :: "string \<Rightarrow> string"
  getCodeSnippet :: "string \<Rightarrow> jsval \<Rightarrow> exn + string"
  getBytes :: "string \<Rightarrow> exn + string"

section \<open>String helpers\<close>

fun join :: "string \<Rightarrow> string list \<Rightarrow> string" where
  "join sep [] = []"
| "join sep [x] = x"
| "join sep (x # y # ys) = x @ sep @ join sep (y # ys)"

definition startsWith :: "string \<Rightarrow> string \<Rightarrow> bool" where
  "startsWith s p = (take (length p) s = p)"

fun includesStr :: "string \<Rightarrow> string \<Rightarrow> bool" where
  "includesStr [] p = (p = [])"
| "includesStr (c # cs) p = (startsWith (c # cs) p \<or> includesStr cs p)"

definition newline :: string where
  "newline = [CHR 0x0A]"

section \<open>The coverage table formatter\<close>

text \<open>\<open>a ?? b\<close>\<close>

definition orElse :: "jsval \<Rightarrow> jsval \<Rightarrow> jsval" where
  "orElse a b = (if nullish a then b else a)"

definition normalizeTotals :: "jsval \<Rightarrow> exn + jsval" where
  "normalizeTotals t =
     (if \<not> truthy t then Inr JUndefined
      else bindE (getProp t ''total'') (\<lambda>total.
           bindE (getProp t ''covered'') (\<lambda>covered.
           bindE (getProp t ''skipped'') (\<lambda>skipped.
           bindE (getProp t ''pct'') (\<lambda>pct.
             Inr (JObj [(''total'', orElse total (JNum 0)),
                        (''covered'', orElse covered (JNum 0)),
                        (''skipped'', orElse skipped (JNum 0)),
                        (''pct'', orElse pct (JNum 0))]))))))"

definition formatTotalsCell :: "runtime \<Rightarrow> jsval \<Rightarrow> exn + string" where
  "formatTotalsCell rt t =
     (if \<not> truthy t then Inr ''n/a''
      else bindE (getProp t ''pct'') (\<lambda>pct.
           bindE (toFixed1 rt pct) (\<lambda>p.
           bindE (getProp t ''covered'') (\<lambda>covered.
           bindE (toStr rt covered) (\<lambda>c.
           bindE (getProp t ''total'') (\<lambda>total.
           bindE (toStr rt total) (\<lambda>n.
             Inr (p @ ''% ('' @ c @ ''/'' @ n @ '')''))))))))"

text \<open>
  \<open>(s && (s.data ?? (typeof s.toJSON === 'function' ? s.toJSON() : s))) ?? s\<close>
\<close>

definition summaryData :: "jsval \<Rightarrow> exn + jsval" where
  "summaryData s =
     (if \<not> truthy s then Inr (orElse s s)
      else bindE (getProp s ''data'') (\<lambda>d.
             if \<not> nullish d then Inr (orElse d s)
             else bindE (getProp s ''toJSON'') (\<lambda>tj.
                    if isFunction tj then bindE (call0 tj) (\<lambda>j. Inr (orElse j s))
                    else Inr (orElse s s))))"

text \<open>
  The four \<open>normalizeTotals\<close> of a summary object's members and the table row built
  from them; \<open>label\<close> is the text of the first cell. The members are read with \<open>?.\<close>
  in the per-file branch and with \<open>.\<close> in the summary-only branch, where the object is
  known to be truthy.
\<close>

definition totalsRow :: "runtime \<Rightarrow> string \<Rightarrow> jsval \<Rightarrow> exn + string" where
  "totalsRow rt label summary =
     bindE (bindE (getPropOpt summary ''lines'') normalizeTotals) (\<lambda>lines.
     bindE (bindE (getPropOpt summary ''statements'') normalizeTotals) (\<lambda>statements.
     bindE (bindE (getPropOpt summary ''branches'') normalizeTotals) (\<lambda>branches.
     bindE (bindE (getPropOpt summary ''functions'') normalizeTotals) (\<lambda>functions.
     bindE (formatTotalsCell rt lines) (\<lambda>l.
     bindE (formatTotalsCell rt statements) (\<lambda>s.
     bindE (formatTotalsCell rt branches) (\<lambda>b.
     bindE (formatTotalsCell rt functions) (\<lambda>f.
       Inr (label @ '' | '' @ l @ '' | '' @ s @ '' | '' @ b @ '' | '' @ f)))))))))"

text \<open>The immediately invoked function that computes \<open>relPath\<close>, with its own \<open>try\<close>.\<close>

definition relPath :: "runtime \<Rightarrow> jsval \<Rightarrow> jsval" where
  "relPath rt file =
     (case pathRelative rt file of
        Inr rel \<Rightarrow> if rel \<noteq> [] \<and> \<not> startsWith rel ''..'' then JStr rel else file
      | Inl e \<Rightarrow> file)"

definition fileRow :: "runtime \<Rightarrow> jsval \<Rightarrow> jsval \<Rightarrow> exn + string" where
  "fileRow rt fileCoverageFor file =
     bindE (call1 fileCoverageFor file) (\<lambda>fc.
     bindE (getPropOpt fc ''toSummary'') (\<lambda>ts.
     bindE (if isFunction ts then call0 ts else Inr JUndefined) (\<lambda>s.
     bindE (summaryData s) (\<lambda>data.
     bindE (bindE (getPropOpt data ''lines'') normalizeTotals) (\<lambda>lines.
     bindE (bindE (getPropOpt data ''statements'') normalizeTotals) (\<lambda>statements.
     bindE (bindE (getPropOpt data ''branches'') normalizeTotals) (\<lambda>branches.
     bindE (bindE (getPropOpt data ''functions'') normalizeTotals) (\<lambda>functions.
     bindE (toStr rt (relPath rt file)) (\<lambda>p.
     bindE (formatTotalsCell rt lines) (\<lambda>l.
     bindE (formatTotalsCell rt statements) (\<lambda>s.
     bindE (formatTotalsCell rt branches) (\<lambda>b.
     bindE (formatTotalsCell rt functions) (\<lambda>f.
       Inr (''`'' @ p @ ''` | '' @ l @ '' | '' @ s @ '' | '' @ b @ '' | '' @ f))))))))))))))"

text \<open>The loop \<open>for (const file of files.sort())\<close>, pushing one row per file.\<close>

fun fileRows :: "runtime \<Rightarrow> jsval \<Rightarrow> jsval list \<Rightarrow> string list \<Rightarrow> exn + string list" where
  "fileRows rt fcf [] rows = Inr rows"
| "fileRows rt fcf (file # files) rows =
     bindE (fileRow rt fcf file) (\<lambda>r. fileRows rt fcf files (rows @ [r]))"

definition tableHeader :: "string list" where
  "tableHeader =
     [''| File | Lines | Statements | Branches | Functions |'',
      ''| ---- | ----: | ---------: | -------: | --------: |'']"

text \<open>
  The first \<open>try\<close> block. \<open>Inr (Some s)\<close>: it returned \<open>s\<close>; \<open>Inr None\<close>: neither shape
  matched and control left the block; \<open>Inl e\<close>: it threw.
\<close>

definition coverageMapTable :: "runtime \<Rightarrow> jsval \<Rightarrow> exn + string" where
  "coverageMapTable rt anyCov =
     bindE (getProp anyCov ''getCoverageSummary'') (\<lambda>gcs.
     bindE (if isFunction gcs
            then bindE (call0 gcs) (\<lambda>s.
                 bindE (summaryData s) (\<lambda>summary.
                 bindE (totalsRow rt ''**All files**'' summary) (\<lambda>r.
                   Inr (tableHeader @ [r]))))
            else Inr tableHeader) (\<lambda>rows.
     bindE (getProp anyCov ''files'') (\<lambda>filesFn.
     bindE (call0 filesFn) (\<lambda>files.
     bindE (sortedElems rt files) (\<lambda>sorted.
     bindE (getProp anyCov ''fileCoverageFor'') (\<lambda>fcf.
     bindE (fileRows rt fcf sorted rows) (\<lambda>rows'.
       Inr (join newline rows'))))))))"

definition isCoverageMap :: "jsval \<Rightarrow> bool" where
  "isCoverageMap anyCov =
     (truthy anyCov
      \<and> (case getProp anyCov ''files'' of Inr f \<Rightarrow> isFunction f | Inl e \<Rightarrow> False)
      \<and> (case getProp anyCov ''fileCoverageFor'' of Inr f \<Rightarrow> isFunction f | Inl e \<Rightarrow> False))"

definition isSummaryOnly :: "jsval \<Rightarrow> bool" where
  "isSummaryOnly anyCov =
     (truthy anyCov
      \<and> (case getProp anyCov ''lines'' of Inr v \<Rightarrow> truthy v | Inl e \<Rightarrow> False)
      \<and> (case getProp anyCov ''statements'' of Inr v \<Rightarrow> truthy v | Inl e \<Rightarrow> False)
      \<and> (case getProp anyCov ''branches'' of Inr v \<Rightarrow> truthy v | Inl e \<Rightarrow> False)
      \<and> (case getProp anyCov ''functions'' of Inr v \<Rightarrow> truthy v | Inl e \<Rightarrow> False))"

definition tryTable :: "runtime \<Rightarrow> jsval \<Rightarrow> exn + string option" where
  "tryTable rt anyCov =
     (if isCoverageMap anyCov then bindE (coverageMapTable rt anyCov) (\<lambda>s. Inr (Some s))
      else if isSummaryOnly anyCov
      then bindE (totalsRow rt ''**All files**'' anyCov) (\<lambda>r.
             Inr (Some (join newline (tableHeader @ [r]))))
      else Inr None)"

definition escapePipes :: "string \<Rightarrow> string" where
  "escapePipes json = concat (map (\<lambda>c. if c = CHR ''|'' then [CHR 0x5C, CHR ''|''] else [c]) json)"

definition jsonFallback :: "string \<Rightarrow> string" where
  "jsonFallback json =
     join newline
       [''| Metric | Value |'',
        ''| ------ | ----- |'',
        ''| Coverage JSON | ```json'',
        escapePipes json,
        ''``` |'']"

definition placeholderTable :: string where
  "placeholderTable =
     ''| Metric | Value |'' @ newline @ ''| ------ | ----- |'' @ newline
       @ ''| Coverage | (unserializable) |''"

definition formatCoverageMarkdownTable :: "runtime \<Rightarrow> jsval \<Rightarrow> exn + string" where
  "formatCoverageMarkdownTable rt coverage =
     (case tryTable rt coverage of
        Inr (Some table) \<Rightarrow> Inr table
      | _ \<Rightarrow>
        (case jsonStringify rt coverage of
           Inr json \<Rightarrow> Inr (jsonFallback (case json of Some j \<Rightarrow> j | None \<Rightarrow> ''null''))
         | Inl e \<Rightarrow> Inr placeholderTable))"

section \<open>Further helpers of \<open>utils\<close>\<close>

definition toLowerChar :: "char \<Rightarrow> char" where
  "toLowerChar c =
     (let n = (of_char c :: nat) in if 65 \<le> n \<and> n \<le> 90 then char_of (n + 32) else c)"

definition toLowerCase :: "string \<Rightarrow> string" where
  "toLowerCase s = map toLowerChar s"

definition determineTestType :: "string \<Rightarrow> test_type" where
  "determineTestType parentTitlePath =
     (let lower = toLowerCase parentTitlePath in
      if includesStr lower ''beforeall'' \<or> includesStr lower ''before all''
         \<or> includesStr lower ''beforeeach'' \<or> includesStr lower ''before each''
         \<or> includesStr lower ''setup''
      then BEFORE
      else if includesStr lower ''afterall'' \<or> includesStr lower ''after all''
         \<or> includesStr lower ''aftereach'' \<or> includesStr lower ''after each''
         \<or> includesStr lower ''teardown''
      then AFTER
      else TEST)"

text \<open>
  A console event of the runner. The runner's type makes \<open>content\<close> a string; the code
  also takes an array, as the repository's own test passes one. \<open>taskId\<close> and \<open>type\<close> may
  be missing.
\<close>

record user_console_log =
  taskId :: "string option"
  log_type :: "string option"
  content :: jsval

text \<open>
  \<open>log.content.map((c) => (typeof c === 'string' ? c : JSON.stringify(c)))\<close>: the
  strings that \<open>join\<close> then puts together, an element that is serialized to \<open>undefined\<close>
  giving the empty string.
\<close>

fun contentParts :: "runtime \<Rightarrow> jsval list \<Rightarrow> exn + string list" where
  "contentParts rt [] = Inr []"
| "contentParts rt (c # cs) =
     bindE (case c of
              JStr s \<Rightarrow> Inr s
            | _ \<Rightarrow> bindE (jsonStringifyPlain rt c)
                     (\<lambda>j. Inr (case j of Some s \<Rightarrow> s | None \<Rightarrow> [])))
       (\<lambda>part. bindE (contentParts rt cs) (\<lambda>parts. Inr (part # parts)))"

text \<open>
  The local constant \<open>text\<close> of \<open>formatConsoleLog\<close>; \<open>String(s)\<close> of a string \<open>s\<close> is \<open>s\<close>.
\<close>

definition contentText :: "runtime \<Rightarrow> jsval \<Rightarrow> exn + string" where
  "contentText rt c =
     (case c of
        JArr cs \<Rightarrow> bindE (contentParts rt cs) (\<lambda>parts. Inr (join '' '' parts))
      | JStr s \<Rightarrow> Inr s
      | _ \<Rightarrow> stringOf rt c)"

definition formatConsoleLog ::
  "runtime \<Rightarrow> user_console_log \<Rightarrow> exn + string \<times> log_format \<times> log_level" where
  "formatConsoleLog rt lg =
     bindE (contentText rt (content lg)) (\<lambda>text.
       let clean = removeAnsi rt text;
           type = (case log_type lg of Some t \<Rightarrow> t | None \<Rightarrow> ''stdout'');
           level = (if type = ''stderr'' then ERROR else INFO);
           hasMarkdown = (includesStr clean ''```'' \<or> includesStr clean ''*'')
       in Inr (if hasMarkdown then clean else text,
               if hasMarkdown then MARKDOWN else PLAIN_TEXT,
               level))"

section \<open>What the runner hands to the reporter\<close>

record test_error =
  err_message :: "string option"
  err_name :: "string option"
  err_stack :: "string option"

text \<open>\<open>res_errors\<close> is \<open>None\<close> when \<open>result.errors\<close> is no array.\<close>

record test_result =
  res_state :: "string option"
  res_errors :: "test_error list option"

text \<open>\<open>loc_line\<close> is \<open>location.line\<close>, \<open>undefined\<close> when there is none.\<close>

record location =
  loc_line :: jsval
  loc_file :: "string option"
  loc_fileName :: "string option"

record test_module =
  mod_moduleId :: "string option"
  mod_projectName :: "string option"
  mod_name :: "string option"

text \<open>
  \<open>test_parents\<close> is the chain \<open>test.suite ?? test.parent\<close>, \<open>.parent\<close>, \<open>.parent\<close>, \<dots>
  given by the \<open>name\<close> of each node, the nearest one first.
\<close>

record test_case =
  test_id :: string
  test_name :: string
  test_module :: "test_module option"
  test_parents :: "string option list"
  test_location :: "location option"
  test_result :: "test_result option"

text \<open>
  \<open>art_path\<close> is \<open>Some p\<close> exactly when \<open>typeof artifact.path === 'string'\<close>;
  \<open>art_fileName\<close> is \<open>artifact.file?.name\<close>.
\<close>

record artifact =
  art_path :: "string option"
  art_fileName :: "string option"
  art_contentType :: "string option"

section \<open>The reporter's state\<close>

text \<open>
  A promise returned by \<open>logAttachmentFromPath\<close>: the arguments of the call and whether
  it is still pending, fulfilled or rejected.
\<close>

datatype promise_state = Pending | Fulfilled | Rejected exn

record upload =
  up_path :: string
  up_contentType :: string
  up_testUUID :: uuid
  up_logUUID :: uuid
  up_state :: promise_state

text \<open>
  The fields of \<open>OrangebeardVitestReporter\<close> that its methods read, together with the two
  things it acts on: \<open>calls\<close>, the calls the client has received, oldest first, and
  \<open>diagnostics\<close>, what was written with \<open>console.warn\<close> and \<open>console.error\<close>. The fields
  \<open>vitest\<close> (stored by \<open>onInit\<close>) and \<open>steps\<close> are never read and are left out.
\<close>

record reporter =
  testRunId :: "uuid option"
  suites :: "string \<rightharpoonup> uuid"
  tests :: "string \<rightharpoonup> uuid"
  promises :: "upload list"
  bufferedLogs :: "string \<rightharpoonup> user_console_log list"
  coverage :: jsval
  calls :: "call list"
  diagnostics :: "string list"

definition newReporter :: reporter where
  "newReporter =
     \<lparr>testRunId = None, suites = Map.empty, tests = Map.empty, promises = [],
      bufferedLogs = Map.empty, coverage = JUndefined, calls = [], diagnostics = []\<rparr>"

text \<open>
  A method takes the state and gives back its outcome (\<open>Inl\<close>: it threw) and the state
  it leaves. What a method changed before it threw stays changed.
\<close>

definition bindM ::
  "(reporter \<Rightarrow> (exn + 'a) \<times> reporter) \<Rightarrow> ('a \<Rightarrow> reporter \<Rightarrow> (exn + 'b) \<times> reporter)
     \<Rightarrow> reporter \<Rightarrow> (exn + 'b) \<times> reporter" where
  "bindM m f w = (case m w of (Inl e, w') \<Rightarrow> (Inl e, w') | (Inr x, w') \<Rightarrow> f x w')"

text \<open>A call of a client operation: it is recorded, then the client answers.\<close>

definition clientCall :: "(call list \<Rightarrow> exn + 'a) \<Rightarrow> call \<Rightarrow> reporter \<Rightarrow> (exn + 'a) \<times> reporter" where
  "clientCall respond c w = (let h = calls w @ [c] in (respond h, w\<lparr>calls := h\<rparr>))"

section \<open>The reporter\<close>

text \<open>The argument of \<open>startTestRun\<close>, built from the client's configuration.\<close>

definition startTestRunCall :: "client \<Rightarrow> call" where
  "startTestRunCall cl =
     StartTestRun (testset (config cl))
       (case description (config cl) of Some d \<Rightarrow> d | None \<Rightarrow> ''Vitest test run'')
       (attributes (config cl))"

definition onTestRunStart :: "client \<Rightarrow> reporter \<Rightarrow> (exn + unit) \<times> reporter" where
  "onTestRunStart cl w =
     (case truthyOf (testRunId w) of
        Some r \<Rightarrow> (Inr (), w)
      | None \<Rightarrow>
          bindM (clientCall (startTestRun_r cl) (startTestRunCall cl))
                (\<lambda>u w'. (Inr (), w'\<lparr>testRunId := Some u\<rparr>)) w)"

subsection \<open>Suite paths\<close>

definition moduleSegment :: "runtime \<Rightarrow> test_module \<Rightarrow> exn + string" where
  "moduleSegment rt m =
     (case truthyOf (mod_moduleId m) of
        Some moduleId \<Rightarrow>
          bindE (pathRelative rt (JStr moduleId)) (\<lambda>rel.
            Inr (if rel \<noteq> [] \<and> \<not> startsWith rel ''..'' then rel else moduleId))
      | None \<Rightarrow>
          Inr (case mod_projectName m of
                 Some p \<Rightarrow> p
               | None \<Rightarrow> (case mod_name m of Some n \<Rightarrow> n | None \<Rightarrow> ''root'')))"

text \<open>The \<open>while (current && current.name)\<close> loop: it stops at the first node without a name.\<close>

fun parentNames :: "string option list \<Rightarrow> string list" where
  "parentNames [] = []"
| "parentNames (None # ps) = []"
| "parentNames (Some n # ps) = (if n = [] then [] else n # parentNames ps)"

definition buildSuitePath :: "runtime \<Rightarrow> test_case \<Rightarrow> exn + string list" where
  "buildSuitePath rt test =
     bindE (case test_module test of
              None \<Rightarrow> Inr []
            | Some m \<Rightarrow> bindE (moduleSegment rt m) (\<lambda>projectName. Inr [projectName]))
       (\<lambda>segments.
          Inr (filter (\<lambda>s. s \<noteq> [] \<and> trim rt s \<noteq> [])
                 (segments @ parentNames (test_parents test))))"

text \<open>
  The \<open>for (const segment of path)\<close> loop of \<open>getOrStartSuiteForTest\<close>, with its two
  local variables \<open>keyParts\<close> and \<open>parentSuiteUUID\<close>.
\<close>

fun suiteLoop ::
  "client \<Rightarrow> string list \<Rightarrow> string list \<Rightarrow> uuid option \<Rightarrow> reporter
     \<Rightarrow> (exn + uuid option) \<times> reporter" where
  "suiteLoop cl [] keyParts parentSuiteUUID w = (Inr parentSuiteUUID, w)"
| "suiteLoop cl (segment # path) keyParts parentSuiteUUID w =
     (case truthyOf (suites w (join ''|'' (keyParts @ [segment]))) of
        Some existing \<Rightarrow> suiteLoop cl path (keyParts @ [segment]) (Some existing) w
      | None \<Rightarrow>
          (case clientCall (startSuite_r cl)
                  (StartSuite (testRunId w) parentSuiteUUID [segment]) w of
             (Inl e, w') \<Rightarrow> (Inl e, w')
           | (Inr [], w') \<Rightarrow> suiteLoop cl path (keyParts @ [segment]) parentSuiteUUID w'
           | (Inr (u # us), w') \<Rightarrow>
               suiteLoop cl path (keyParts @ [segment]) (Some u)
                 (w'\<lparr>suites := (suites w')(join ''|'' (keyParts @ [segment]) \<mapsto> u)\<rparr>)))"

definition getOrStartSuiteForTest ::
  "runtime \<Rightarrow> client \<Rightarrow> test_case \<Rightarrow> reporter \<Rightarrow> (exn + uuid) \<times> reporter" where
  "getOrStartSuiteForTest rt cl test w =
     (case buildSuitePath rt test of
        Inl e \<Rightarrow> (Inl e, w)
      | Inr path \<Rightarrow>
          bindM (suiteLoop cl path [] None)
            (\<lambda>parentSuiteUUID w'.
               case truthyOf parentSuiteUUID of
                 None \<Rightarrow> (Inl ''Failed to create or resolve suite for test.'', w')
               | Some u \<Rightarrow> (Inr u, w')) w)"

subsection \<open>Starting a test and flushing its buffered logs\<close>

text \<open>\<open>location.file ?? location.fileName\<close>\<close>

definition locationFile :: "location \<Rightarrow> string option" where
  "locationFile loc = (case loc_file loc of Some f \<Rightarrow> Some f | None \<Rightarrow> loc_fileName loc)"

definition getTestDescription :: "runtime \<Rightarrow> test_case \<Rightarrow> string" where
  "getTestDescription rt test =
     join newline
       (case test_location test of
          None \<Rightarrow> []
        | Some loc \<Rightarrow>
            if isNumber (loc_line loc)
            then (case truthyOf (locationFile loc) of
                    None \<Rightarrow> []
                  | Some file \<Rightarrow> [file @ '':'' @ numToString rt (loc_line loc)])
            else [])"

definition logConsole ::
  "runtime \<Rightarrow> client \<Rightarrow> uuid \<Rightarrow> user_console_log \<Rightarrow> reporter \<Rightarrow> (exn + uuid) \<times> reporter" where
  "logConsole rt cl testUUID lg w =
     (case formatConsoleLog rt lg of
        Inl e \<Rightarrow> (Inl e, w)
      | Inr (message, format, level) \<Rightarrow>
          clientCall (log_r cl) (Log format level message (testRunId w) testUUID) w)"

text \<open>The \<open>for (const entry of buffered)\<close> loop of \<open>flushBufferedLogs\<close>.\<close>

fun flushLoop ::
  "runtime \<Rightarrow> client \<Rightarrow> uuid \<Rightarrow> user_console_log list \<Rightarrow> reporter \<Rightarrow> (exn + unit) \<times> reporter" where
  "flushLoop rt cl testUUID [] w = (Inr (), w)"
| "flushLoop rt cl testUUID (entry # buffered) w =
     (case logConsole rt cl testUUID entry w of
        (Inl e, w') \<Rightarrow> (Inl e, w')
      | (Inr l, w') \<Rightarrow> flushLoop rt cl testUUID buffered w')"

definition flushBufferedLogs ::
  "runtime \<Rightarrow> client \<Rightarrow> string \<Rightarrow> uuid \<Rightarrow> reporter \<Rightarrow> (exn + unit) \<times> reporter" where
  "flushBufferedLogs rt cl tid testUUID w =
     (case bufferedLogs w tid of
        None \<Rightarrow> (Inr (), w)
      | Some [] \<Rightarrow> (Inr (), w)
      | Some (entry # buffered) \<Rightarrow>
          bindM (flushLoop rt cl testUUID (entry # buffered))
            (\<lambda>_ w'. (Inr (), w'\<lparr>bufferedLogs := (bufferedLogs w')(tid := None)\<rparr>)) w)"

definition ensureTestStarted ::
  "runtime \<Rightarrow> client \<Rightarrow> test_case \<Rightarrow> reporter \<Rightarrow> (exn + uuid) \<times> reporter" where
  "ensureTestStarted rt cl test w =
     (case truthyOf (tests w (test_id test)) of
        Some existing \<Rightarrow> (Inr existing, w)
      | None \<Rightarrow>
          bindM (getOrStartSuiteForTest rt cl test)
            (\<lambda>suiteUUID.
               bindM (\<lambda>w1. clientCall (startTest_r cl)
                        (StartTest (determineTestType (test_name test)) (testRunId w1)
                           (Some suiteUUID) (test_name test) (getTestDescription rt test)) w1)
                 (\<lambda>testUUID w2.
                    bindM (flushBufferedLogs rt cl (test_id test) testUUID)
                      (\<lambda>_ w3. (Inr testUUID, w3))
                      (w2\<lparr>tests := (tests w2)(test_id test \<mapsto> testUUID)\<rparr>))) w)"

definition onTestCaseReady ::
  "runtime \<Rightarrow> client \<Rightarrow> test_case \<Rightarrow> reporter \<Rightarrow> (exn + unit) \<times> reporter" where
  "onTestCaseReady rt cl test w =
     bindM (ensureTestStarted rt cl test) (\<lambda>_ w'. (Inr (), w')) w"

subsection \<open>Test results\<close>

text \<open>\<open>String(error.message ?? error.name ?? 'Test failed')\<close>\<close>

definition errorText :: "test_error \<Rightarrow> string" where
  "errorText error =
     (case err_message error of
        Some m \<Rightarrow> m
      | None \<Rightarrow> (case err_name error of Some n \<Rightarrow> n | None \<Rightarrow> ''Test failed''))"

text \<open>
  The \<open>try\<close> block around the code snippet. Whatever is thrown inside it, by
  \<open>getCodeSnippet\<close> or by the client's \<open>log\<close>, is swallowed by the empty \<open>catch\<close>.
\<close>

definition logSnippet :: "runtime \<Rightarrow> client \<Rightarrow> test_case \<Rightarrow> uuid \<Rightarrow> reporter \<Rightarrow> reporter" where
  "logSnippet rt cl test testUUID w =
     (case test_location test of
        None \<Rightarrow> w
      | Some loc \<Rightarrow>
          if isNumber (loc_line loc)
          then (case truthyOf (locationFile loc) of
                  None \<Rightarrow> w
                | Some file \<Rightarrow>
                    (case getCodeSnippet rt file (loc_line loc) of
                       Inl e \<Rightarrow> w
                     | Inr snippet \<Rightarrow>
                         snd (clientCall (log_r cl)
                                (Log MARKDOWN INFO snippet (testRunId w) testUUID) w)))
          else w)"

definition logError ::
  "runtime \<Rightarrow> client \<Rightarrow> test_case \<Rightarrow> uuid \<Rightarrow> test_error \<Rightarrow> reporter \<Rightarrow> (exn + unit) \<times> reporter" where
  "logError rt cl test testUUID error w =
     bindM (clientCall (log_r cl)
              (Log MARKDOWN ERROR (ansiToMarkdown rt (removeAnsi rt (errorText error)))
                 (testRunId w) testUUID))
       (\<lambda>_.
          bindM (\<lambda>w1. case truthyOf (err_stack error) of
                         None \<Rightarrow> (Inr [], w1)
                       | Some stack \<Rightarrow>
                           clientCall (log_r cl)
                             (Log MARKDOWN ERROR
                                (''```text'' @ newline @ removeAnsi rt stack @ newline @ ''```'')
                                (testRunId w1) testUUID) w1)
            (\<lambda>_ w2. (Inr (), logSnippet rt cl test testUUID w2))) w"

text \<open>The \<open>for (const error of result.errors)\<close> loop.\<close>

fun logErrors ::
  "runtime \<Rightarrow> client \<Rightarrow> test_case \<Rightarrow> uuid \<Rightarrow> test_error list \<Rightarrow> reporter
     \<Rightarrow> (exn + unit) \<times> reporter" where
  "logErrors rt cl test testUUID [] w = (Inr (), w)"
| "logErrors rt cl test testUUID (error # errors) w =
     (case logError rt cl test testUUID error w of
        (Inl e, w') \<Rightarrow> (Inl e, w')
      | (Inr u, w') \<Rightarrow> logErrors rt cl test testUUID errors w')"

text \<open>\<open>result?.state ? testStatusMap[result.state] : undefined\<close>\<close>

definition resultStatus :: "test_case \<Rightarrow> status_value option" where
  "resultStatus test =
     (case test_result test of
        None \<Rightarrow> None
      | Some result \<Rightarrow>
          (case truthyOf (res_state result) of
             None \<Rightarrow> None
           | Some state \<Rightarrow> testStatusMap state))"

definition resultErrors :: "test_case \<Rightarrow> test_error list" where
  "resultErrors test =
     (case test_result test of
        None \<Rightarrow> []
      | Some result \<Rightarrow> (case res_errors result of None \<Rightarrow> [] | Some errors \<Rightarrow> errors))"

definition onTestCaseResult ::
  "runtime \<Rightarrow> client \<Rightarrow> test_case \<Rightarrow> reporter \<Rightarrow> (exn + unit) \<times> reporter" where
  "onTestCaseResult rt cl test w =
     bindM (ensureTestStarted rt cl test)
       (\<lambda>testUUID.
          bindM (logErrors rt cl test testUUID (resultErrors test))
            (\<lambda>_.
               bindM (\<lambda>w1. case resultStatus test of
                              None \<Rightarrow> (Inr (), w1)
                            | Some status \<Rightarrow>
                                clientCall (finishTest_r cl)
                                  (FinishTest testUUID (testRunId w1) status) w1)
                 (\<lambda>_ w2. (Inr (), w2\<lparr>tests := (tests w2)(test_id test := None)\<rparr>)))) w"

subsection \<open>Console logs and artifacts\<close>

definition onUserConsoleLog ::
  "runtime \<Rightarrow> client \<Rightarrow> user_console_log \<Rightarrow> reporter \<Rightarrow> (exn + unit) \<times> reporter" where
  "onUserConsoleLog rt cl lg w =
     (case truthyOf (taskId lg) of
        None \<Rightarrow>
          (Inr (),
           w\<lparr>diagnostics := diagnostics w @
                [''[OrangebeardVitestReporter] Received console log without taskId; cannot send to Orangebeard.'']\<rparr>)
      | Some tid \<Rightarrow>
          (case truthyOf (tests w tid) of
             None \<Rightarrow>
               (Inr (),
                w\<lparr>bufferedLogs := (bufferedLogs w)
                     (tid \<mapsto> (case bufferedLogs w tid of None \<Rightarrow> [] | Some existing \<Rightarrow> existing) @ [lg])\<rparr>)
           | Some testUUID \<Rightarrow>
               bindM (logConsole rt cl testUUID lg) (\<lambda>_ w'. (Inr (), w')) w))"

text \<open>
  The local constants \<open>name\<close> and \<open>contentType\<close> of \<open>onTestCaseArtifactRecord\<close>:
  \<open>artifact.file?.name ?? path ?? 'artifact'\<close> and
  \<open>artifact.contentType ?? 'application/octet-stream'\<close>.
\<close>

definition artifactName :: "artifact \<Rightarrow> string" where
  "artifactName a =
     (case art_fileName a of
        Some n \<Rightarrow> n
      | None \<Rightarrow> (case art_path a of Some p \<Rightarrow> p | None \<Rightarrow> ''artifact''))"

definition artifactContentType :: "artifact \<Rightarrow> string" where
  "artifactContentType a =
     (case art_contentType a of Some c \<Rightarrow> c | None \<Rightarrow> ''application/octet-stream'')"

definition onTestCaseArtifactRecord ::
  "client \<Rightarrow> test_case \<Rightarrow> artifact \<Rightarrow> reporter \<Rightarrow> (exn + unit) \<times> reporter" where
  "onTestCaseArtifactRecord cl test a w =
     (case truthyOf (tests w (test_id test)) of
        None \<Rightarrow> (Inr (), w)
      | Some testUUID \<Rightarrow>
          bindM (clientCall (log_r cl)
                   (Log MARKDOWN INFO (''Attachment: '' @ artifactName a) (testRunId w) testUUID))
            (\<lambda>logUUID w'.
               (Inr (),
                case truthyOf (art_path a) of
                  None \<Rightarrow> w'
                | Some path \<Rightarrow>
                    w'\<lparr>promises := promises w' @
                         [\<lparr>up_path = path, up_contentType = artifactContentType a,
                           up_testUUID = testUUID, up_logUUID = logUUID,
                           up_state = Pending\<rparr>]\<rparr>)) w)"

definition onCoverage :: "jsval \<Rightarrow> reporter \<Rightarrow> reporter" where
  "onCoverage c w = w\<lparr>coverage := c\<rparr>"

subsection \<open>Uploads\<close>

text \<open>\<open>path.split(/[\\/]/).pop()\<close>: what follows the last slash or backslash.\<close>

definition baseName :: "string \<Rightarrow> string" where
  "baseName path = rev (takeWhile (\<lambda>c. c \<noteq> CHR ''/'' \<and> c \<noteq> CHR 0x5C) (rev path))"

text \<open>
  \<open>logAttachmentFromPath\<close> is \<open>async\<close>. Called from \<open>onTestCaseArtifactRecord\<close> it does
  nothing the client sees before its \<open>await\<close>, and the promise it returns is pushed to
  \<open>promises\<close> as pending. When \<open>getBytes\<close> has settled the rest of its body runs:
  \<open>logAttachmentFromPath rt cl i\<close> is that step for the \<open>i\<close>-th promise. \<open>getBytes\<close> waits for
  the file and rejects when it does not appear in time; it writes the error to the
  console and throws it again, which rejects the promise. An exception of
  \<open>sendAttachment\<close> rejects it as well.
\<close>

definition logAttachmentFromPath :: "runtime \<Rightarrow> client \<Rightarrow> nat \<Rightarrow> reporter \<Rightarrow> reporter" where
  "logAttachmentFromPath rt cl i w =
     (if i < length (promises w) \<and> up_state (promises w ! i) = Pending
      then (let u = promises w ! i in
            case getBytes rt (up_path u) of
              Inl e \<Rightarrow>
                w\<lparr>promises := (promises w)[i := u\<lparr>up_state := Rejected e\<rparr>],
                  diagnostics := diagnostics w @ [''Error reading file:'']\<rparr>
            | Inr bytes \<Rightarrow>
                (case clientCall (sendAttachment_r cl)
                        (SendAttachment (baseName (up_path u)) bytes (up_contentType u)
                           (testRunId w) (up_testUUID u) (up_logUUID u)) w of
                   (Inl e, w') \<Rightarrow> w'\<lparr>promises := (promises w')[i := u\<lparr>up_state := Rejected e\<rparr>]\<rparr>
                 | (Inr x, w') \<Rightarrow> w'\<lparr>promises := (promises w')[i := u\<lparr>up_state := Fulfilled\<rparr>]\<rparr>))
      else w)"

text \<open>
  \<open>Promise.all\<close>: rejected as soon as one of the promises is rejected, fulfilled when all
  of them are fulfilled, pending otherwise.
\<close>

fun rejection :: "upload list \<Rightarrow> exn option" where
  "rejection [] = None"
| "rejection (u # us) = (case up_state u of Rejected e \<Rightarrow> Some e | _ \<Rightarrow> rejection us)"

definition promiseAll :: "upload list \<Rightarrow> (exn + unit) option" where
  "promiseAll ps =
     (case rejection ps of
        Some e \<Rightarrow> Some (Inl e)
      | None \<Rightarrow> if list_all (\<lambda>u. up_state u = Fulfilled) ps then Some (Inr ()) else None)"

text \<open>
  \<open>await Promise.all(this.promises)\<close>. While the method is suspended the pending uploads
  settle one after the other, in an order the reporter does not control: \<open>sched\<close> lists
  the promises in the order in which they settle. \<open>None\<close>: the method is still
  suspended when the schedule is used up.
\<close>

fun awaitAll ::
  "runtime \<Rightarrow> client \<Rightarrow> nat list \<Rightarrow> reporter \<Rightarrow> (exn + unit) option \<times> reporter" where
  "awaitAll rt cl [] w = (promiseAll (promises w), w)"
| "awaitAll rt cl (i # sched) w =
     (case promiseAll (promises w) of
        Some r \<Rightarrow> (Some r, w)
      | None \<Rightarrow> awaitAll rt cl sched (logAttachmentFromPath rt cl i w))"

subsection \<open>The end of the run\<close>

definition getOrStartCoverageSuite :: "client \<Rightarrow> reporter \<Rightarrow> (exn + uuid option) \<times> reporter" where
  "getOrStartCoverageSuite cl w =
     (case truthyOf (suites w ''__orangebeard_coverage__'') of
        Some existing \<Rightarrow> (Inr (Some existing), w)
      | None \<Rightarrow>
          bindM (clientCall (startSuite_r cl) (StartSuite (testRunId w) None [''Coverage'']))
            (\<lambda>suiteUUIDs w'.
               case suiteUUIDs of
                 [] \<Rightarrow> (Inr None, w')
               | uuid # us \<Rightarrow>
                   (Inr (Some uuid),
                    if uuid \<noteq> []
                    then w'\<lparr>suites := (suites w')(''__orangebeard_coverage__'' \<mapsto> uuid)\<rparr>
                    else w')) w)"

text \<open>What \<open>reportCoverageSummary\<close> writes with \<open>console.error\<close> when the report failed.\<close>

definition failureNote :: string where
  "failureNote = ''[OrangebeardVitestReporter] Failed to report coverage summary''"

text \<open>The body of the \<open>try\<close> block of \<open>reportCoverageSummary\<close>.\<close>

definition coverageReport :: "runtime \<Rightarrow> client \<Rightarrow> reporter \<Rightarrow> (exn + unit) \<times> reporter" where
  "coverageReport rt cl w =
     bindM (getOrStartCoverageSuite cl)
       (\<lambda>suiteUUID.
          bindM (\<lambda>w1. clientCall (startTest_r cl)
                   (StartTest AFTER (testRunId w1) suiteUUID ''Coverage report''
                      ''Aggregated coverage summary reported by Vitest.'') w1)
            (\<lambda>testUUID.
               bindM (\<lambda>w2. (formatCoverageMarkdownTable rt (coverage w2), w2))
                 (\<lambda>markdownTable.
                    bindM (\<lambda>w3. clientCall (log_r cl)
                             (Log MARKDOWN INFO markdownTable (testRunId w3) testUUID) w3)
                      (\<lambda>_ w4. clientCall (finishTest_r cl)
                                 (FinishTest testUUID (testRunId w4) (Status PASSED)) w4)))) w"

definition reportCoverageSummary :: "runtime \<Rightarrow> client \<Rightarrow> reporter \<Rightarrow> (exn + unit) \<times> reporter" where
  "reportCoverageSummary rt cl w =
     (if \<not> truthy (coverage w) then (Inr (), w)
      else (case coverageReport rt cl w of
              (Inl error, w') \<Rightarrow>
                (Inr (),
                 w'\<lparr>diagnostics := diagnostics w' @
                       [failureNote],
                    coverage := JUndefined\<rparr>)
            | (Inr x, w') \<Rightarrow> (Inr (), w'\<lparr>coverage := JUndefined\<rparr>)))"

text \<open>
  \<open>onTestRunEnd\<close> is \<open>async\<close>: it throws (its promise rejects), returns, or stays suspended
  at its first \<open>await\<close>.
\<close>

definition onTestRunEnd ::
  "runtime \<Rightarrow> client \<Rightarrow> nat list \<Rightarrow> reporter \<Rightarrow> (exn + unit) option \<times> reporter" where
  "onTestRunEnd rt cl sched w =
     (case awaitAll rt cl sched w of
        (None, w') \<Rightarrow> (None, w')
      | (Some (Inl e), w') \<Rightarrow> (Some (Inl e), w')
      | (Some (Inr x), w') \<Rightarrow>
          (case reportCoverageSummary rt cl w' of
             (Inl e, w1) \<Rightarrow> (Some (Inl e), w1)
           | (Inr y, w1) \<Rightarrow>
               (case clientCall (finishTestRun_r cl) (FinishTestRun (testRunId w1)) w1 of
                  (r, w2) \<Rightarrow> (Some r, w2))))"

definition printsToStdio :: bool where
  "printsToStdio = False"

section \<open>The runner's sequence of events\<close>

text \<open>
  The runner calls the reporter's methods one after the other; between two of them a
  pending upload may settle. A sequence of events is run until a method throws or
  stays suspended.
\<close>

datatype event =
    RunStart
  | CaseReady test_case
  | CaseResult test_case
  | ConsoleLog user_console_log
  | ArtifactRecord test_case artifact
  | Coverage jsval
  | UploadSettles nat
  | RunEnd "nat list"

fun handleEvent ::
  "runtime \<Rightarrow> client \<Rightarrow> event \<Rightarrow> reporter \<Rightarrow> (exn + unit) option \<times> reporter" where
  "handleEvent rt cl RunStart w = (case onTestRunStart cl w of (r, w') \<Rightarrow> (Some r, w'))"
| "handleEvent rt cl (CaseReady t) w = (case onTestCaseReady rt cl t w of (r, w') \<Rightarrow> (Some r, w'))"
| "handleEvent rt cl (CaseResult t) w = (case onTestCaseResult rt cl t w of (r, w') \<Rightarrow> (Some r, w'))"
| "handleEvent rt cl (ConsoleLog lg) w = (case onUserConsoleLog rt cl lg w of (r, w') \<Rightarrow> (Some r, w'))"
| "handleEvent rt cl (ArtifactRecord t a) w =
     (case onTestCaseArtifactRecord cl t a w of (r, w') \<Rightarrow> (Some r, w'))"
| "handleEvent rt cl (Coverage c) w = (Some (Inr ()), onCoverage c w)"
| "handleEvent rt cl (UploadSettles i) w = (Some (Inr ()), logAttachmentFromPath rt cl i w)"
| "handleEvent rt cl (RunEnd sched) w = onTestRunEnd rt cl sched w"

fun runEvents ::
  "runtime \<Rightarrow> client \<Rightarrow> event list \<Rightarrow> reporter \<Rightarrow> (exn + unit) option \<times> reporter" where
  "runEvents rt cl [] w = (Some (Inr ()), w)"
| "runEvents rt cl (e # es) w =
     (case handleEvent rt cl e w of
        (Some (Inr x), w') \<Rightarrow> runEvents rt cl es w'
      | (r, w') \<Rightarrow> (r, w'))"

section \<open>Predicates used in the statements\<close>





text \<open>
  A client that answers every call: no operation throws, every suite call returns at
  least one identifier, and the identifiers of runs, suites and tests are non-empty
  strings, as the type \<open>UUID\<close> has it.
\<close>

definition answers :: "client \<Rightarrow> bool" where
  "answers cl =
     ((\<forall>h. \<exists>u. startTestRun_r cl h = Inr u \<and> u \<noteq> [])
      \<and> (\<forall>h. \<exists>u us. startSuite_r cl h = Inr (u # us) \<and> u \<noteq> [])
      \<and> (\<forall>h. \<exists>u. startTest_r cl h = Inr u \<and> u \<noteq> [])
      \<and> (\<forall>h. \<exists>u. log_r cl h = Inr u)
      \<and> (\<forall>h. finishTest_r cl h = Inr ())
      \<and> (\<forall>h. sendAttachment_r cl h = Inr ())
      \<and> (\<forall>h. finishTestRun_r cl h = Inr ()))"

fun isStartSuite :: "call \<Rightarrow> bool" where
  "isStartSuite (StartSuite r p n) = True"
| "isStartSuite c = False"

fun isStartTest :: "call \<Rightarrow> bool" where
  "isStartTest (StartTest ty r s n d) = True"
| "isStartTest c = False"

fun isFinishTest :: "call \<Rightarrow> bool" where
  "isFinishTest (FinishTest u r s) = True"
| "isFinishTest c = False"

fun isFinishTestRun :: "call \<Rightarrow> bool" where
  "isFinishTestRun (FinishTestRun r) = True"
| "isFinishTestRun c = False"

fun isLog :: "call \<Rightarrow> bool" where
  "isLog (Log f l m r u) = True"
| "isLog c = False"

definition isOpening :: "call \<Rightarrow> bool" where
  "isOpening c = (isStartSuite c \<or> isStartTest c \<or> isLog c)"

text \<open>The calls of a report: those that open or write, and \<open>finishTest\<close>.\<close>

definition isReporting :: "call \<Rightarrow> bool" where
  "isReporting c = (isOpening c \<or> isFinishTest c)"

text \<open>
  \<open>extends P w w1\<close>: the state \<open>w1\<close> differs from \<open>w\<close> by further calls, all of kind \<open>P\<close>,
  and at most in the reporter's maps.
\<close>

definition extends :: "(call \<Rightarrow> bool) \<Rightarrow> reporter \<Rightarrow> reporter \<Rightarrow> bool" where
  "extends P w w1 =
     (\<exists>cs. calls w1 = calls w @ cs \<and> list_all P cs
           \<and> testRunId w1 = testRunId w \<and> promises w1 = promises w
           \<and> coverage w1 = coverage w \<and> diagnostics w1 = diagnostics w)"

text \<open>
  Between \<open>w\<close> and \<open>w'\<close> the test \<open>u\<close> was finished with status \<open>st\<close>: the \<open>finishTest\<close> call
  is the last call, and the calls before it open suites and tests and write logs.
  \<open>leftUnfinished\<close>: only such calls were made, none of them \<open>finishTest\<close>.
\<close>

definition finishedWith :: "reporter \<Rightarrow> reporter \<Rightarrow> uuid \<Rightarrow> status_value \<Rightarrow> bool" where
  "finishedWith w w' u st =
     (\<exists>mid. calls w' = calls w @ mid @ [FinishTest u (testRunId w) st] \<and> list_all isOpening mid)"

definition leftUnfinished :: "reporter \<Rightarrow> reporter \<Rightarrow> bool" where
  "leftUnfinished w w' = (\<exists>mid. calls w' = calls w @ mid \<and> list_all isOpening mid)"

text \<open>
  The \<open>log\<close> call that forwards a formatted console event, given by its message, format
  and level, to the test \<open>testUUID\<close>.
\<close>

definition consoleLogCall :: "uuid option \<Rightarrow> uuid \<Rightarrow> string \<times> log_format \<times> log_level \<Rightarrow> call" where
  "consoleLogCall run testUUID formatted =
     (case formatted of (message, format, level) \<Rightarrow> Log format level message run testUUID)"

text \<open>The buffered console events of a task, none when there is no buffer.\<close>

definition buffered :: "reporter \<Rightarrow> string \<Rightarrow> user_console_log list" where
  "buffered w tid = (case bufferedLogs w tid of None \<Rightarrow> [] | Some b \<Rightarrow> b)"

text \<open>The memo key of the prefix of a suite path that ends at position \<open>i\<close>.\<close>

definition prefixKey :: "string list \<Rightarrow> nat \<Rightarrow> string" where
  "prefixKey path i = join ''|'' (take (Suc i) path)"

text \<open>
  The suite-creation calls of one run of the loop of \<open>getOrStartSuiteForTest\<close> over \<open>path\<close>,
  entered with the key parts \<open>keyParts\<close> and the parent \<open>parent\<close>: one call for each
  position whose key is not memoized in \<open>memo\<close>, in the order of the path, the first under
  \<open>parent\<close> and every other one under what \<open>memo'\<close> holds for the key one position before.
\<close>

definition newSuiteCalls ::
  "uuid option \<Rightarrow> uuid option \<Rightarrow> (string \<rightharpoonup> uuid) \<Rightarrow> (string \<rightharpoonup> uuid)
     \<Rightarrow> string list \<Rightarrow> string list \<Rightarrow> call list" where
  "newSuiteCalls run parent memo memo' keyParts path =
     map (\<lambda>i. StartSuite run
                 (if i = 0 then parent else memo' (join ''|'' (keyParts @ take i path)))
                 [path ! i])
       (filter (\<lambda>i. truthyOf (memo (join ''|'' (keyParts @ take (Suc i) path))) = None)
          [0..<length path])"

section \<open>Example inputs\<close>

text \<open>Decimal digits of a whole number, for the identifiers and texts of the examples.\<close>

fun showNat :: "nat \<Rightarrow> string" where
  "showNat n =
     (if n < 10 then [char_of (48 + n)] else showNat (n div 10) @ [char_of (48 + n mod 10)])"

definition showInt :: "int \<Rightarrow> string" where
  "showInt i = (if i < 0 then ''-'' @ showNat (nat (- i)) else showNat (nat i))"

text \<open>
  The client of the repository's reporter test: it records nothing of its own and
  answers with fixed identifiers.
\<close>

definition fakeClient :: client where
  "fakeClient =
     \<lparr>config = \<lparr>testset = ''Vitest reporter tests'',
                description = Some ''Unit tests for Orangebeard Vitest reporter'',
                attributes = []\<rparr>,
      startTestRun_r = (\<lambda>h. Inr ''run-uuid''),
      finishTestRun_r = (\<lambda>h. Inr ()),
      startSuite_r = (\<lambda>h. Inr [''suite-uuid'']),
      startTest_r = (\<lambda>h. Inr ''test-uuid''),
      finishTest_r = (\<lambda>h. Inr ()),
      log_r = (\<lambda>h. Inr ''log-uuid''),
      sendAttachment_r = (\<lambda>h. Inr ())\<rparr>"

text \<open>
  A client that numbers the suites it creates: the identifier of a suite tells how many
  calls the client had received when it was created.
\<close>

definition countingClient :: client where
  "countingClient = fakeClient\<lparr>startSuite_r := (\<lambda>h. Inr [''suite-'' @ showNat (length h)])\<rparr>"

text \<open>The same client, except that every \<open>startTest\<close> throws.\<close>

definition failingClient :: client where
  "failingClient = fakeClient\<lparr>startTest_r := (\<lambda>h. Inl ''startTest failed'')\<rparr>"

text \<open>
  A runtime for the examples: the working directory is \<open>/repo\<close>, one artifact file
  exists, no source file can be read, and the string rewriters leave their argument
  alone. Numbers are printed exactly when they are whole and below \<open>1e21\<close>; only
  strings and such numbers are converted and serialized.
\<close>

text \<open>
  The white space that \<open>trim\<close> removes, as far as it fits a \<open>char\<close>: the code units 9 to
  13, 32 and 160.
\<close>

definition isWhiteSpace :: "char \<Rightarrow> bool" where
  "isWhiteSpace c = (let n = (of_char c :: nat) in (9 \<le> n \<and> n \<le> 13) \<or> n = 32 \<or> n = 160)"

definition sampleTrim :: "string \<Rightarrow> string" where
  "sampleTrim s = rev (dropWhile isWhiteSpace (rev (dropWhile isWhiteSpace s)))"

definition sampleNumber :: "jsval \<Rightarrow> string" where
  "sampleNumber v =
     (case v of
        JNum x \<Rightarrow> showInt \<lfloor>x\<rfloor>
      | JNaN \<Rightarrow> ''NaN''
      | JInfinity negative \<Rightarrow> (if negative then ''-Infinity'' else ''Infinity'')
      | _ \<Rightarrow> [])"

fun codesLe :: "nat list \<Rightarrow> nat list \<Rightarrow> bool" where
  "codesLe [] ys = True"
| "codesLe (x # xs) [] = False"
| "codesLe (x # xs) (y # ys) = (x < y \<or> (x = y \<and> codesLe xs ys))"

fun insertSorted :: "string \<Rightarrow> string list \<Rightarrow> string list" where
  "insertSorted x [] = [x]"
| "insertSorted x (y # ys) =
     (if codesLe (map of_char x) (map of_char y) then x # y # ys
      else y # insertSorted x ys)"

fun stringsOf :: "jsval list \<Rightarrow> string list option" where
  "stringsOf [] = Some []"
| "stringsOf (JStr s # vs) = (case stringsOf vs of Some ss \<Rightarrow> Some (s # ss) | None \<Rightarrow> None)"
| "stringsOf (v # vs) = None"

definition sampleRuntime :: runtime where
  "sampleRuntime =
     \<lparr>toFixed1 = (\<lambda>v. case v of JNum x \<Rightarrow> Inr (showInt \<lfloor>x\<rfloor> @ ''.0'') | _ \<Rightarrow> Inl ''TypeError''),
      toStr = (\<lambda>v. case v of JNum x \<Rightarrow> Inr (showInt \<lfloor>x\<rfloor>) | JStr s \<Rightarrow> Inr s
                     | _ \<Rightarrow> Inl ''TypeError''),
      numToString = sampleNumber,
      stringOf = (\<lambda>v. case v of JNum x \<Rightarrow> Inr (showInt \<lfloor>x\<rfloor>) | JStr s \<Rightarrow> Inr s
                        | _ \<Rightarrow> Inl ''TypeError''),
      trim = sampleTrim,
      sortedElems = (\<lambda>v. case v of
                       JArr xs \<Rightarrow> (case stringsOf xs of
                                    Some ss \<Rightarrow> Inr (map JStr (foldr insertSorted ss []))
                                  | None \<Rightarrow> Inl ''TypeError'')
                     | _ \<Rightarrow> Inl ''TypeError''),
      pathRelative = (\<lambda>v. case v of
                        JStr s \<Rightarrow> Inr (if startsWith s ''/repo/'' then drop 6 s else ''../'' @ s)
                      | _ \<Rightarrow> Inl ''TypeError''),
      jsonStringify = (\<lambda>v. case v of
                         JUndefined \<Rightarrow> Inr None
                       | JNull \<Rightarrow> Inr (Some ''null'')
                       | JStr s \<Rightarrow> Inr (Some (''\"'' @ s @ ''\"''))
                       | JNum x \<Rightarrow> Inr (Some (showInt \<lfloor>x\<rfloor>))
                       | _ \<Rightarrow> Inl ''TypeError''),
      jsonStringifyPlain = (\<lambda>v. case v of
                              JUndefined \<Rightarrow> Inr None
                            | JNull \<Rightarrow> Inr (Some ''null'')
                            | JStr s \<Rightarrow> Inr (Some (''\"'' @ s @ ''\"''))
                            | JNum x \<Rightarrow> Inr (Some (showInt \<lfloor>x\<rfloor>))
                            | _ \<Rightarrow> Inl ''TypeError''),
      removeAnsi = (\<lambda>s. s),
      ansiToMarkdown = (\<lambda>s. s),
      getCodeSnippet = (\<lambda>f n. Inl ''ENOENT''),
      getBytes = (\<lambda>p. if p = ''/repo/artifacts/screenshot.png'' then Inr ''file-bytes''
                       else Inl ''Timeout'')\<rparr>"

text \<open>The test case that the repository's reporter test builds, with a given state.\<close>

definition sampleTest :: "string \<Rightarrow> string \<Rightarrow> string \<Rightarrow> test_case" where
  "sampleTest tid name st =
     \<lparr>test_id = tid, test_name = name,
      test_module = Some \<lparr>mod_moduleId = Some ''/repo/tests/sample.test.ts'',
                          mod_projectName = None, mod_name = None\<rparr>,
      test_parents = [Some ''sample suite'', None],
      test_location = Some \<lparr>loc_line = JNum 10, loc_file = Some ''/repo/tests/sample.test.ts'',
                            loc_fileName = None\<rparr>,
      test_result = Some \<lparr>res_state = Some st, res_errors = Some []\<rparr>\<rparr>"

text \<open>A test case without module and without named parents: its suite path is empty.\<close>

definition orphanTest :: test_case where
  "orphanTest =
     \<lparr>test_id = ''t-0'', test_name = ''orphan'', test_module = None, test_parents = [],
      test_location = None, test_result = None\<rparr>"

text \<open>
  A test case without module whose only enclosing suite is named by a no-break space:
  \<open>trim\<close> leaves nothing of the name.
\<close>

definition blankSuiteTest :: test_case where
  "blankSuiteTest =
     \<lparr>test_id = ''t-9'', test_name = ''blank'', test_module = None,
      test_parents = [Some [CHR 0xA0], None],
      test_location = None, test_result = None\<rparr>"

text \<open>
  The test case of the reporter test in other suites: \<open>parents\<close> lists the names that the
  \<open>parent\<close> links of the test lead through, the suite that directly contains the test
  first, and \<open>None\<close> for the module, which has no name.
\<close>

definition inSuites :: "string \<Rightarrow> string \<Rightarrow> string option list \<Rightarrow> test_case" where
  "inSuites tid name parents = (sampleTest tid name ''passed'')\<lparr>test_parents := parents\<rparr>"

text \<open>A coverage snapshot of the summary-only shape, and the table it is rendered to.\<close>

definition sampleCoverage :: jsval where
  "sampleCoverage =
     JObj [(''lines'', JObj [(''total'', JNum 10), (''covered'', JNum 5), (''pct'', JNum 50)]),
           (''statements'', JObj [(''total'', JNum 10), (''covered'', JNum 5), (''pct'', JNum 50)]),
           (''branches'', JObj [(''total'', JNum 0), (''covered'', JNum 0), (''pct'', JNum 100)]),
           (''functions'', JObj [(''total'', JNum 2), (''covered'', JNum 1), (''pct'', JNum 50)])]"

definition sampleCoverageTable :: string where
  "sampleCoverageTable =
     ''| File | Lines | Statements | Branches | Functions |'' @ newline @
     ''| ---- | ----: | ---------: | -------: | --------: |'' @ newline @
     ''**All files** | 50.0% (5/10) | 50.0% (5/10) | 100.0% (0/0) | 50.0% (1/2)''"

section \<open>Properties\<close>

section \<open>Auxiliary facts\<close>

lemma bindM_Inr:
  "bindM m f w = (Inr y, w2) \<longleftrightarrow> (\<exists>x w1. m w = (Inr x, w1) \<and> f x w1 = (Inr y, w2))"
  by (cases "m w") (auto simp: bindM_def split: sum.splits)

lemma truthyOf_Some: "truthyOf v = Some s \<longleftrightarrow> v = Some s \<and> s \<noteq> []"
  by (auto simp: truthyOf_def split: option.splits)

text \<open>What a method leaves untouched, and which calls it adds.\<close>

lemma clientCall_eq:
  "clientCall respond c w = (respond (calls w @ [c]), w\<lparr>calls := calls w @ [c]\<rparr>)"
  by (simp add: clientCall_def Let_def)

lemma extends_refl: "extends P w w"
  by (simp add: extends_def)

lemma extends_trans: "extends P w w1 \<Longrightarrow> extends P w1 w2 \<Longrightarrow> extends P w w2"
  by (auto simp: extends_def)

lemma extends_mono: "extends P w w1 \<Longrightarrow> (\<And>c. P c \<Longrightarrow> Q c) \<Longrightarrow> extends Q w w1"
  by (auto simp: extends_def list_all_iff)

lemma extends_call: "P c \<Longrightarrow> extends P w (w\<lparr>calls := calls w @ [c]\<rparr>)"
  by (simp add: extends_def)

lemma extends_fields [simp]:
  "extends P (w\<lparr>tests := tm\<rparr>) w1 = extends P w w1"
  "extends P (w\<lparr>suites := sm\<rparr>) w1 = extends P w w1"
  "extends P (w\<lparr>bufferedLogs := bm\<rparr>) w1 = extends P w w1"
  "extends P w (w1\<lparr>tests := tm\<rparr>) = extends P w w1"
  "extends P w (w1\<lparr>suites := sm\<rparr>) = extends P w w1"
  "extends P w (w1\<lparr>bufferedLogs := bm\<rparr>) = extends P w w1"
  by (simp_all add: extends_def)

lemma suiteLoop_frame:
  "suiteLoop cl path keyParts parent w = (r, w1) \<Longrightarrow>
     extends isStartSuite w w1 \<and> tests w1 = tests w \<and> bufferedLogs w1 = bufferedLogs w"
proof (induction path arbitrary: keyParts parent w)
  case Nil
  then show ?case by (simp add: extends_refl)
next
  case (Cons segment path)
  let ?c = "StartSuite (testRunId w) parent [segment]"
  let ?w' = "w\<lparr>calls := calls w @ [?c]\<rparr>"
  have step: "extends isStartSuite w ?w'" by (simp add: extends_call)
  from Cons.prems show ?case
    by (auto simp: clientCall_eq extends_def split: option.splits sum.splits list.splits
             dest!: Cons.IH)
qed


lemma getOrStartSuiteForTest_frame:
  assumes "getOrStartSuiteForTest rt cl t w = (r, w1)"
  shows "extends isStartSuite w w1 \<and> tests w1 = tests w \<and> bufferedLogs w1 = bufferedLogs w"
proof (cases "buildSuitePath rt t")
  case (Inl e)
  with assms show ?thesis by (simp add: getOrStartSuiteForTest_def extends_refl)
next
  case (Inr path)
  obtain r0 w0 where loop: "suiteLoop cl path [] None w = (r0, w0)" by force
  with assms Inr have "w1 = w0"
    by (auto simp: getOrStartSuiteForTest_def bindM_def split: sum.splits option.splits)
  with suiteLoop_frame[OF loop] show ?thesis by simp
qed

lemma logConsole_eq:
  "logConsole rt cl u lg w =
     (case formatConsoleLog rt lg of
        Inl e \<Rightarrow> (Inl e, w)
      | Inr f \<Rightarrow>
          (log_r cl (calls w @ [consoleLogCall (testRunId w) u f]),
           w\<lparr>calls := calls w @ [consoleLogCall (testRunId w) u f]\<rparr>))"
  by (simp add: logConsole_def consoleLogCall_def clientCall_eq split: sum.splits prod.splits)

lemma isLog_consoleLogCall [simp]: "isLog (consoleLogCall run u f)"
  by (simp add: consoleLogCall_def split: prod.splits)

lemma formatConsoleLog_string:
  "content lg = JStr s \<Longrightarrow> \<exists>f. formatConsoleLog rt lg = Inr f"
  by (simp add: formatConsoleLog_def contentText_def bindE_def Let_def)

lemma flushLoop_frame:
  "flushLoop rt cl u ls w = (r, w1) \<Longrightarrow>
     extends isLog w w1 \<and> tests w1 = tests w \<and> bufferedLogs w1 = bufferedLogs w
     \<and> suites w1 = suites w"
proof (induction ls arbitrary: w)
  case Nil
  then show ?case by (simp add: extends_refl)
next
  case (Cons lg ls)
  from Cons.prems show ?case
    by (auto simp: logConsole_eq extends_def split: sum.splits dest!: Cons.IH)
qed

lemma flushBufferedLogs_frame:
  assumes "flushBufferedLogs rt cl tid u w = (r, w1)"
  shows "extends isLog w w1 \<and> tests w1 = tests w \<and> suites w1 = suites w"
proof (cases "bufferedLogs w tid")
  case None
  with assms show ?thesis by (simp add: flushBufferedLogs_def extends_refl)
next
  case (Some b)
  show ?thesis
  proof (cases b)
    case Nil
    with Some assms show ?thesis by (simp add: flushBufferedLogs_def extends_refl)
  next
    case (Cons e es)
    obtain r0 w0 where loop: "flushLoop rt cl u (e # es) w = (r0, w0)" by force
    from flushLoop_frame[OF loop] loop Some Cons assms show ?thesis
      by (cases r0) (auto simp: flushBufferedLogs_def bindM_def extends_def)
  qed
qed

lemma ensureTestStarted_frame:
  assumes "ensureTestStarted rt cl t w = (r, w1)"
  shows "extends isOpening w w1"
proof (cases "truthyOf (tests w (test_id t))")
  case (Some existing)
  with assms show ?thesis by (simp add: ensureTestStarted_def extends_refl)
next
  case None
  obtain r0 w0 where g: "getOrStartSuiteForTest rt cl t w = (r0, w0)" by force
  from getOrStartSuiteForTest_frame[OF g] have e0: "extends isOpening w w0"
    by (auto intro: extends_mono simp: isOpening_def)
  show ?thesis
  proof (cases r0)
    case (Inl e)
    with assms None g e0 show ?thesis by (simp add: ensureTestStarted_def bindM_def)
  next
    case (Inr suiteUUID)
    let ?c = "StartTest (determineTestType (test_name t)) (testRunId w0) (Some suiteUUID)
                (test_name t) (getTestDescription rt t)"
    let ?w1 = "w0\<lparr>calls := calls w0 @ [?c]\<rparr>"
    have e1: "extends isOpening w ?w1"
      using e0 by (auto simp: extends_def isOpening_def)
    show ?thesis
    proof (cases "startTest_r cl (calls w0 @ [?c])")
      case (Inl e)
      with assms None g Inr e1 show ?thesis
        by (simp add: ensureTestStarted_def bindM_def clientCall_eq)
    next
      case u: (Inr testUUID)
      let ?w2 = "?w1\<lparr>tests := (tests ?w1)(test_id t \<mapsto> testUUID)\<rparr>"
      obtain r3 w3 where f: "flushBufferedLogs rt cl (test_id t) testUUID ?w2 = (r3, w3)"
        by force
      from flushBufferedLogs_frame[OF f] have "extends isOpening ?w1 w3"
        by (auto intro: extends_mono simp: isOpening_def)
      with e1 have e3: "extends isOpening w w3" by (rule extends_trans)
      from assms None g Inr u f have "w1 = w3"
        by (cases r3) (simp_all add: ensureTestStarted_def bindM_def clientCall_eq)
      with e3 show ?thesis by simp
    qed
  qed
qed

lemma logSnippet_frame:
  "extends isLog w (logSnippet rt cl t u w) \<and> tests (logSnippet rt cl t u w) = tests w"
  by (auto simp: logSnippet_def clientCall_eq extends_def split: option.splits sum.splits)

lemma logError_frame:
  assumes "logError rt cl t u err w = (r, w1)"
  shows "extends isLog w w1 \<and> tests w1 = tests w"
proof -
  let ?c = "Log MARKDOWN ERROR (ansiToMarkdown rt (removeAnsi rt (errorText err)))
              (testRunId w) u"
  let ?w1 = "w\<lparr>calls := calls w @ [?c]\<rparr>"
  have e1: "extends isLog w ?w1" by (simp add: extends_call)
  show ?thesis
  proof (cases "log_r cl (calls w @ [?c])")
    case (Inl e)
    with assms e1 show ?thesis by (auto simp: logError_def bindM_def clientCall_eq)
  next
    case first: (Inr l)
    show ?thesis
    proof (cases "truthyOf (err_stack err)")
      case None
      with assms first have "w1 = logSnippet rt cl t u ?w1"
        by (simp add: logError_def bindM_def clientCall_eq)
      with e1 logSnippet_frame[of ?w1 rt cl t u] show ?thesis
        by (auto intro: extends_trans)
    next
      case (Some stack)
      let ?d = "Log MARKDOWN ERROR
                  (''```text'' @ newline @ removeAnsi rt stack @ newline @ ''```'')
                  (testRunId w) u"
      let ?w2 = "?w1\<lparr>calls := calls ?w1 @ [?d]\<rparr>"
      have "extends isLog ?w1 ?w2" by (rule extends_call) simp
      with e1 have e2: "extends isLog w ?w2" by (rule extends_trans)
      show ?thesis
      proof (cases "log_r cl (calls ?w1 @ [?d])")
        case (Inl e)
        with assms first Some e2 show ?thesis
          by (auto simp: logError_def bindM_def clientCall_eq)
      next
        case (Inr l2)
        with assms first Some have "w1 = logSnippet rt cl t u ?w2"
          by (simp add: logError_def bindM_def clientCall_eq)
        with e2 logSnippet_frame[of ?w2 rt cl t u] show ?thesis
          by (auto intro: extends_trans)
      qed
    qed
  qed
qed

lemma logErrors_frame:
  "logErrors rt cl t u errs w = (r, w1) \<Longrightarrow> extends isLog w w1 \<and> tests w1 = tests w"
proof (induction errs arbitrary: w)
  case Nil
  then show ?case by (simp add: extends_refl)
next
  case (Cons err errs)
  obtain r0 w0 where e: "logError rt cl t u err w = (r0, w0)" by force
  from logError_frame[OF e] have f0: "extends isLog w w0" "tests w0 = tests w" by auto
  show ?case
  proof (cases r0)
    case (Inl x)
    with Cons.prems e f0 show ?thesis by simp
  next
    case (Inr x)
    with Cons.prems e have "logErrors rt cl t u errs w0 = (r, w1)" by simp
    from Cons.IH[OF this] f0 show ?thesis by (auto intro: extends_trans)
  qed
qed

section \<open>The coverage table formatter is total\<close>



















section \<open>Run start is idempotent\<close>

lemma onTestRunStart_open:
  "truthyOf (testRunId w) = Some r \<Longrightarrow> onTestRunStart cl w = (Inr (), w)"
  by (simp add: onTestRunStart_def)

lemma onTestRunStart_first:
  assumes "truthyOf (testRunId w) = None"
    and "startTestRun_r cl (calls w @ [startTestRunCall cl]) = Inr u"
  shows "onTestRunStart cl w =
           (Inr (), w\<lparr>calls := calls w @ [startTestRunCall cl], testRunId := Some u\<rparr>)"
  using assms by (simp add: onTestRunStart_def bindM_def clientCall_def Let_def)

lemma runStarts_open:
  "truthyOf (testRunId w) = Some r \<Longrightarrow>
     runEvents rt cl (replicate n RunStart) w = (Some (Inr ()), w)"
  by (induction n) (simp_all add: onTestRunStart_open)

text \<open>
  Claim C5. Starting from a state without an open run, with a client whose
  \<open>startTestRun\<close> returns a non-empty identifier: any positive number of run-start events
  leaves exactly the state that one of them leaves, with one \<open>startTestRun\<close> call added
  and its identifier recorded. In every state with an open run, run-start is a no-op.
\<close>

theorem run_start_idempotent:
  assumes "truthyOf (testRunId w) = None"
    and "startTestRun_r cl (calls w @ [startTestRunCall cl]) = Inr u"
    and "u \<noteq> []"
  shows "runEvents rt cl (replicate (Suc n) RunStart) w
           = (Some (Inr ()), w\<lparr>calls := calls w @ [startTestRunCall cl], testRunId := Some u\<rparr>)
         \<and> (\<forall>w' r. truthyOf (testRunId w') = Some r \<longrightarrow> onTestRunStart cl w' = (Inr (), w'))"
proof -
  let ?w1 = "w\<lparr>calls := calls w @ [startTestRunCall cl], testRunId := Some u\<rparr>"
  have first: "onTestRunStart cl w = (Inr (), ?w1)"
    using assms(1,2) by (rule onTestRunStart_first)
  have "truthyOf (testRunId ?w1) = Some u"
    using assms(3) by (simp add: truthyOf_def)
  then have "runEvents rt cl (replicate n RunStart) ?w1 = (Some (Inr ()), ?w1)"
    by (rule runStarts_open)
  with first show ?thesis
    by (simp add: onTestRunStart_open)
qed

theorem run_start_idempotent_witness:
  "runEvents sampleRuntime fakeClient [RunStart, RunStart, RunStart] newReporter
     = (Some (Inr ()),
        newReporter\<lparr>calls := [StartTestRun ''Vitest reporter tests''
                                 ''Unit tests for Orangebeard Vitest reporter'' []],
                    testRunId := Some ''run-uuid''\<rparr>)"
  using run_start_idempotent [of newReporter fakeClient "''run-uuid''" sampleRuntime 2]
  by (simp add: newReporter_def fakeClient_def startTestRunCall_def truthyOf_def numeral_2_eq_2)

section \<open>An empty suite path\<close>

text \<open>
  Claim C9. When the suite path of a test has no segment, \<open>getOrStartSuiteForTest\<close>
  throws and leaves the state as it was. For a test that is not started yet, the two
  events that start it, test-case-ready and test-case-result, throw the same error to
  the runner and leave the state as it was, so that no call reached the client.
\<close>

theorem empty_suite_path_raises:
  assumes "buildSuitePath rt t = Inr []"
  shows "getOrStartSuiteForTest rt cl t w
           = (Inl ''Failed to create or resolve suite for test.'', w)
         \<and> (truthyOf (tests w (test_id t)) = None \<longrightarrow>
              onTestCaseReady rt cl t w = (Inl ''Failed to create or resolve suite for test.'', w)
            \<and> onTestCaseResult rt cl t w = (Inl ''Failed to create or resolve suite for test.'', w))"
proof -
  have g: "getOrStartSuiteForTest rt cl t w
             = (Inl ''Failed to create or resolve suite for test.'', w)"
    using assms by (simp add: getOrStartSuiteForTest_def bindM_def truthyOf_def)
  then have "truthyOf (tests w (test_id t)) = None \<Longrightarrow>
      ensureTestStarted rt cl t w = (Inl ''Failed to create or resolve suite for test.'', w)"
    by (simp add: ensureTestStarted_def bindM_def)
  with g show ?thesis
    by (simp add: onTestCaseReady_def onTestCaseResult_def bindM_def)
qed

text \<open>
  Two such tests: one without module and suites, and one whose only suite name is a
  no-break space.
\<close>

theorem empty_suite_path_raises_witness:
  "onTestCaseReady sampleRuntime fakeClient orphanTest newReporter
     = (Inl ''Failed to create or resolve suite for test.'', newReporter)
   \<and> onTestCaseResult sampleRuntime fakeClient orphanTest newReporter
     = (Inl ''Failed to create or resolve suite for test.'', newReporter)
   \<and> onTestCaseReady sampleRuntime fakeClient blankSuiteTest newReporter
     = (Inl ''Failed to create or resolve suite for test.'', newReporter)
   \<and> onTestCaseResult sampleRuntime fakeClient blankSuiteTest newReporter
     = (Inl ''Failed to create or resolve suite for test.'', newReporter)"
proof -
  have p: "buildSuitePath sampleRuntime orphanTest = Inr []"
    by (simp add: buildSuitePath_def orphanTest_def bindE_def)
  have k: "truthyOf (tests newReporter (test_id orphanTest)) = None"
    by (simp add: newReporter_def truthyOf_def)
  have p': "buildSuitePath sampleRuntime blankSuiteTest = Inr []"
    by code_simp
  have k': "truthyOf (tests newReporter (test_id blankSuiteTest)) = None"
    by (simp add: newReporter_def truthyOf_def)
  from empty_suite_path_raises [OF p, of fakeClient newReporter] k
       empty_suite_path_raises [OF p', of fakeClient newReporter] k'
  show ?thesis by simp
qed

section \<open>Mapping the state of a result to a status\<close>

lemma onTestCaseResult_cases:
  assumes "onTestCaseResult rt cl t w = (Inr (), w')"
  obtains u w1 w2 where
    "ensureTestStarted rt cl t w = (Inr u, w1)"
    "logErrors rt cl t u (resultErrors t) w1 = (Inr (), w2)"
    "resultStatus t = None \<and> w' = w2\<lparr>tests := (tests w2)(test_id t := None)\<rparr>
     \<or> (\<exists>st. resultStatus t = Some st
            \<and> finishTest_r cl (calls w2 @ [FinishTest u (testRunId w2) st]) = Inr ()
            \<and> w' = w2\<lparr>calls := calls w2 @ [FinishTest u (testRunId w2) st],
                       tests := (tests w2)(test_id t := None)\<rparr>)"
proof -
  from assms obtain u w1 where
    e: "ensureTestStarted rt cl t w = (Inr u, w1)" and
    r1: "bindM (logErrors rt cl t u (resultErrors t))
            (\<lambda>_.
               bindM (\<lambda>w1. case resultStatus t of
                              None \<Rightarrow> (Inr (), w1)
                            | Some status \<Rightarrow>
                                clientCall (finishTest_r cl)
                                  (FinishTest u (testRunId w1) status) w1)
                 (\<lambda>_ w2. (Inr (), w2\<lparr>tests := (tests w2)(test_id t := None)\<rparr>))) w1
         = (Inr (), w')"
    unfolding onTestCaseResult_def by (auto simp: bindM_Inr)
  from r1 obtain w2 where
    l: "logErrors rt cl t u (resultErrors t) w1 = (Inr (), w2)" and
    r2: "bindM (\<lambda>w1. case resultStatus t of
                              None \<Rightarrow> (Inr (), w1)
                            | Some status \<Rightarrow>
                                clientCall (finishTest_r cl)
                                  (FinishTest u (testRunId w1) status) w1)
                 (\<lambda>_ w2. (Inr (), w2\<lparr>tests := (tests w2)(test_id t := None)\<rparr>)) w2
         = (Inr (), w')"
    by (auto simp: bindM_Inr)
  from r2 have
    "resultStatus t = None \<and> w' = w2\<lparr>tests := (tests w2)(test_id t := None)\<rparr>
     \<or> (\<exists>st. resultStatus t = Some st
            \<and> finishTest_r cl (calls w2 @ [FinishTest u (testRunId w2) st]) = Inr ()
            \<and> w' = w2\<lparr>calls := calls w2 @ [FinishTest u (testRunId w2) st],
                       tests := (tests w2)(test_id t := None)\<rparr>)"
    by (cases "resultStatus t") (auto simp: bindM_Inr clientCall_eq)
  with e l show thesis by (rule that)
qed

lemma onTestCaseResult_shape:
  assumes "onTestCaseResult rt cl t w = (Inr (), w')"
  shows "tests w' (test_id t) = None
       \<and> (\<exists>u w1. ensureTestStarted rt cl t w = (Inr u, w1)
            \<and> (case resultStatus t of
                  None \<Rightarrow> leftUnfinished w w'
                | Some st \<Rightarrow> finishedWith w w' u st))"
proof -
  from assms obtain u w1 w2 where
    e: "ensureTestStarted rt cl t w = (Inr u, w1)" and
    l: "logErrors rt cl t u (resultErrors t) w1 = (Inr (), w2)" and
    f: "resultStatus t = None \<and> w' = w2\<lparr>tests := (tests w2)(test_id t := None)\<rparr>
     \<or> (\<exists>st. resultStatus t = Some st
            \<and> finishTest_r cl (calls w2 @ [FinishTest u (testRunId w2) st]) = Inr ()
            \<and> w' = w2\<lparr>calls := calls w2 @ [FinishTest u (testRunId w2) st],
                       tests := (tests w2)(test_id t := None)\<rparr>)"
    by (rule onTestCaseResult_cases)
  from ensureTestStarted_frame[OF e] have e1: "extends isOpening w w1" .
  from logErrors_frame[OF l] have "extends isOpening w1 w2"
    by (auto intro: extends_mono simp: isOpening_def)
  with e1 have "extends isOpening w w2" by (rule extends_trans)
  then obtain mid where mid: "calls w2 = calls w @ mid" "list_all isOpening mid"
    "testRunId w2 = testRunId w"
    by (auto simp: extends_def)
  from f mid have "tests w' (test_id t) = None" by auto
  moreover from f mid have "case resultStatus t of
                  None \<Rightarrow> leftUnfinished w w'
                | Some st \<Rightarrow> finishedWith w w' u st"
    by (auto simp: leftUnfinished_def finishedWith_def)
  ultimately show ?thesis using e by blast
qed

lemma resultStatus_state:
  "test_result t = Some res \<Longrightarrow> res_state res = Some s \<Longrightarrow>
     resultStatus t = (if s = [] then None else testStatusMap s)"
  by (simp add: resultStatus_def truthyOf_def)

lemma testStatusMap_other:
  "s \<noteq> ''passed'' \<Longrightarrow> s \<noteq> ''failed'' \<Longrightarrow> s \<noteq> ''skipped'' \<Longrightarrow> s \<noteq> ''pending'' \<Longrightarrow>
     s \<notin> set objectPrototypeKeys \<Longrightarrow> testStatusMap s = None"
  by (simp add: testStatusMap_def)

text \<open>
  What the code does with the state \<open>s\<close> of a result when the event returns: for
  \<open>passed\<close>, \<open>failed\<close>, \<open>skipped\<close> and \<open>pending\<close> the last call finishes the test with
  \<open>PASSED\<close>, \<open>FAILED\<close>, \<open>SKIPPED\<close> and \<open>SKIPPED\<close>; for a state that is neither one of
  these four nor the name of a member that a plain object inherits from
  \<open>Object.prototype\<close>, no \<open>finishTest\<close> call is made.
\<close>

lemma result_status_mapping:
  assumes "onTestCaseResult rt cl t w = (Inr (), w')"
    and "test_result t = Some res" and "res_state res = Some s"
  shows "\<exists>u w1. ensureTestStarted rt cl t w = (Inr u, w1)
          \<and> (s = ''passed'' \<longrightarrow> finishedWith w w' u (Status PASSED))
          \<and> (s = ''failed'' \<longrightarrow> finishedWith w w' u (Status FAILED))
          \<and> (s = ''skipped'' \<longrightarrow> finishedWith w w' u (Status SKIPPED))
          \<and> (s = ''pending'' \<longrightarrow> finishedWith w w' u (Status SKIPPED))
          \<and> (s \<noteq> ''passed'' \<and> s \<noteq> ''failed'' \<and> s \<noteq> ''skipped'' \<and> s \<noteq> ''pending''
               \<and> s \<notin> set objectPrototypeKeys \<longrightarrow> leftUnfinished w w')"
proof -
  from onTestCaseResult_shape[OF assms(1)] obtain u w1 where
    e: "ensureTestStarted rt cl t w = (Inr u, w1)" and
    c: "case resultStatus t of None \<Rightarrow> leftUnfinished w w' | Some st \<Rightarrow> finishedWith w w' u st"
    by blast
  note rs = resultStatus_state[OF assms(2,3)]
  have p1: "s = ''passed'' \<longrightarrow> finishedWith w w' u (Status PASSED)"
    using c rs by (auto simp: testStatusMap_def)
  have p2: "s = ''failed'' \<longrightarrow> finishedWith w w' u (Status FAILED)"
    using c rs by (auto simp: testStatusMap_def)
  have p3: "s = ''skipped'' \<longrightarrow> finishedWith w w' u (Status SKIPPED)"
    using c rs by (auto simp: testStatusMap_def)
  have p4: "s = ''pending'' \<longrightarrow> finishedWith w w' u (Status SKIPPED)"
    using c rs by (auto simp: testStatusMap_def)
  have p5: "s \<noteq> ''passed'' \<and> s \<noteq> ''failed'' \<and> s \<noteq> ''skipped'' \<and> s \<noteq> ''pending''
               \<and> s \<notin> set objectPrototypeKeys \<longrightarrow> leftUnfinished w w'"
  proof
    assume "s \<noteq> ''passed'' \<and> s \<noteq> ''failed'' \<and> s \<noteq> ''skipped'' \<and> s \<noteq> ''pending''
               \<and> s \<notin> set objectPrototypeKeys"
    then have "testStatusMap s = None" by (intro testStatusMap_other) (elim conjE, assumption)+
    with rs have "resultStatus t = None" by simp
    with c show "leftUnfinished w w'" by simp
  qed
  show ?thesis
    by (rule exI[of _ u], rule exI[of _ w1]) (intro conjI e p1 p2 p3 p4 p5)
qed

text \<open>The reporter test's case with the state \<open>failed\<close>.\<close>

lemma result_status_mapping_example:
  "\<exists>u. fst (ensureTestStarted sampleRuntime fakeClient
               (sampleTest ''t-1'' ''fails with an error'' ''failed'') newReporter) = Inr u
       \<and> finishedWith newReporter
            (snd (onTestCaseResult sampleRuntime fakeClient
                    (sampleTest ''t-1'' ''fails with an error'' ''failed'') newReporter))
            u (Status FAILED)"
proof -
  let ?t = "sampleTest ''t-1'' ''fails with an error'' ''failed''"
  let ?w' = "snd (onTestCaseResult sampleRuntime fakeClient ?t newReporter)"
  have "fst (onTestCaseResult sampleRuntime fakeClient ?t newReporter) = Inr ()"
    by code_simp
  then have run: "onTestCaseResult sampleRuntime fakeClient ?t newReporter = (Inr (), ?w')"
    by (simp add: prod_eq_iff)
  have res: "test_result ?t = Some \<lparr>res_state = Some ''failed'', res_errors = Some []\<rparr>"
    by (simp add: sampleTest_def)
  have st: "res_state \<lparr>res_state = Some ''failed'', res_errors = Some []\<rparr> = Some ''failed''"
    by simp
  from result_status_mapping [OF run res st] show ?thesis by auto
qed

text \<open>
  Claim C2, at a failing input. The claim has every state other than \<open>passed\<close>,
  \<open>failed\<close>, \<open>skipped\<close> and \<open>pending\<close> end without a finish call, and
  \<open>if (status)\<close> is there for that. The code
  does not do so for the state \<open>constructor\<close>: it is none of the four states, but reading
  \<open>testStatusMap['constructor']\<close> yields the constructor function that the object literal
  inherits, which is truthy, so the event returns after a \<open>finishTest\<close> call whose status
  is that function.
\<close>

theorem inherited_state_is_finished:
  "''constructor'' \<notin> {''passed'', ''failed'', ''skipped'', ''pending''}
   \<and> fst (onTestCaseResult sampleRuntime fakeClient
            (sampleTest ''t-1'' ''fails with an error'' ''constructor'') newReporter) = Inr ()
   \<and> calls (snd (onTestCaseResult sampleRuntime fakeClient
            (sampleTest ''t-1'' ''fails with an error'' ''constructor'') newReporter))
     = [StartSuite None None [''tests/sample.test.ts''],
        StartSuite None (Some ''suite-uuid'') [''sample suite''],
        StartTest TEST None (Some ''suite-uuid'') ''fails with an error''
          ''/repo/tests/sample.test.ts:10'',
        FinishTest ''test-uuid'' None (Inherited ''constructor'')]"
  by code_simp

section \<open>A finished test is forgotten\<close>

lemma onUserConsoleLog_unknown:
  assumes "truthyOf (tests w tid) = None" and "taskId lg = Some tid" and "tid \<noteq> []"
  shows "onUserConsoleLog rt cl lg w
           = (Inr (), w\<lparr>bufferedLogs := (bufferedLogs w)(tid \<mapsto> buffered w tid @ [lg])\<rparr>)"
  using assms by (simp add: onUserConsoleLog_def truthyOf_def buffered_def)


lemma onUserConsoleLog_no_task:
  assumes "truthyOf (taskId lg) = None"
  shows "\<exists>d. onUserConsoleLog rt cl lg w = (Inr (), w\<lparr>diagnostics := diagnostics w @ [d]\<rparr>)"
  using assms unfolding onUserConsoleLog_def by (simp only: option.case) (rule exI, rule refl)

text \<open>
  Claim C10. After a test-case-result event that returned, whatever the state of the
  result was, the test's identifier is absent from \<open>tests\<close>. A later console event for
  that identifier reaches no client call: it is buffered (dropped with a warning when the
  identifier is the empty string). A later artifact event for the test changes nothing.
\<close>

theorem finished_test_is_forgotten:
  assumes "onTestCaseResult rt cl t w = (Inr (), w')"
  shows "tests w' (test_id t) = None
       \<and> (\<forall>lg. taskId lg = Some (test_id t) \<longrightarrow>
            (\<exists>w''. onUserConsoleLog rt cl lg w' = (Inr (), w'') \<and> calls w'' = calls w'
                  \<and> (test_id t \<noteq> [] \<longrightarrow>
                       buffered w'' (test_id t) = buffered w' (test_id t) @ [lg])))
       \<and> (\<forall>a. onTestCaseArtifactRecord cl t a w' = (Inr (), w'))"
proof -
  from onTestCaseResult_shape[OF assms] have gone: "tests w' (test_id t) = None" by simp
  then have unknown: "truthyOf (tests w' (test_id t)) = None" by (simp add: truthyOf_def)
  have logs: "\<exists>w''. onUserConsoleLog rt cl lg w' = (Inr (), w'') \<and> calls w'' = calls w'
                  \<and> (test_id t \<noteq> [] \<longrightarrow>
                       buffered w'' (test_id t) = buffered w' (test_id t) @ [lg])"
    if "taskId lg = Some (test_id t)" for lg
  proof (cases "test_id t = []")
    case True
    with that have "truthyOf (taskId lg) = None" by (simp add: truthyOf_def)
    from onUserConsoleLog_no_task[OF this, of rt cl w'] True show ?thesis by auto
  next
    case False
    from onUserConsoleLog_unknown[OF unknown that False, of rt cl] show ?thesis
      by (simp add: buffered_def)
  qed
  have "onTestCaseArtifactRecord cl t a w' = (Inr (), w')" for a
    using unknown by (simp add: onTestCaseArtifactRecord_def)
  with gone logs show ?thesis by simp
qed

text \<open>A result with the state \<open>todo\<close>, for which no finish call is made.\<close>

theorem finished_test_is_forgotten_witness:
  "tests (snd (onTestCaseResult sampleRuntime fakeClient
                 (sampleTest ''t-1'' ''is marked as todo'' ''todo'') newReporter)) ''t-1'' = None
   \<and> calls (snd (onTestCaseResult sampleRuntime fakeClient
                 (sampleTest ''t-1'' ''is marked as todo'' ''todo'') newReporter))
      = [StartSuite None None [''tests/sample.test.ts''],
         StartSuite None (Some ''suite-uuid'') [''sample suite''],
         StartTest TEST None (Some ''suite-uuid'') ''is marked as todo''
           ''/repo/tests/sample.test.ts:10'']"
proof -
  let ?t = "sampleTest ''t-1'' ''is marked as todo'' ''todo''"
  let ?w' = "snd (onTestCaseResult sampleRuntime fakeClient ?t newReporter)"
  have "fst (onTestCaseResult sampleRuntime fakeClient ?t newReporter) = Inr ()"
    by code_simp
  then have run: "onTestCaseResult sampleRuntime fakeClient ?t newReporter = (Inr (), ?w')"
    by (simp add: prod_eq_iff)
  have id: "test_id ?t = ''t-1''" by (simp add: sampleTest_def)
  have c: "calls ?w'
      = [StartSuite None None [''tests/sample.test.ts''],
         StartSuite None (Some ''suite-uuid'') [''sample suite''],
         StartTest TEST None (Some ''suite-uuid'') ''is marked as todo''
           ''/repo/tests/sample.test.ts:10'']"
    by code_simp
  from finished_test_is_forgotten [OF run] id c show ?thesis by simp
qed

section \<open>Artifact records\<close>





section \<open>The coverage report at the end of the run\<close>

lemma formatCoverageMarkdownTable_returns:
  "\<exists>table. formatCoverageMarkdownTable rt c = Inr table"
  unfolding formatCoverageMarkdownTable_def
  by (auto split: sum.splits option.splits)

lemma getOrStartCoverageSuite_frame:
  assumes "getOrStartCoverageSuite cl w = (r, w1)"
  shows "extends isStartSuite w w1"
  using assms
  by (auto simp: getOrStartCoverageSuite_def bindM_def clientCall_eq extends_def
           split: option.splits sum.splits list.splits if_splits)

lemma coverageReport_frame:
  assumes "coverageReport rt cl w = (r, w1)"
  shows "extends isReporting w w1"
proof -
  obtain r0 w0 where g: "getOrStartCoverageSuite cl w = (r0, w0)" by force
  from getOrStartCoverageSuite_frame[OF g] have e0: "extends isReporting w w0"
    by (auto intro: extends_mono simp: isReporting_def isOpening_def)
  show ?thesis
  proof (cases r0)
    case (Inl e)
    with assms g e0 show ?thesis by (auto simp: coverageReport_def bindM_def)
  next
    case (Inr suiteUUID)
    obtain table where tb: "formatCoverageMarkdownTable rt (coverage w0) = Inr table"
      using formatCoverageMarkdownTable_returns by blast
    from assms g Inr tb e0 show ?thesis
      by (auto simp: coverageReport_def bindM_def clientCall_eq extends_def isReporting_def
               isOpening_def split: sum.splits)
  qed
qed

lemma coverageReport_answers:
  assumes "answers cl"
  shows "\<exists>suite tu table w1.
           coverageReport rt cl w = (Inr (), w1)
         \<and> formatCoverageMarkdownTable rt (coverage w) = Inr table
         \<and> truthyOf (suites w1 ''__orangebeard_coverage__'') = Some suite
         \<and> calls w1 = calls w
             @ (case truthyOf (suites w ''__orangebeard_coverage__'') of
                  Some existing \<Rightarrow> []
                | None \<Rightarrow> [StartSuite (testRunId w) None [''Coverage'']])
             @ [StartTest AFTER (testRunId w) (Some suite) ''Coverage report''
                  ''Aggregated coverage summary reported by Vitest.'',
                Log MARKDOWN INFO table (testRunId w) tu,
                FinishTest tu (testRunId w) (Status PASSED)]"
proof -
  obtain table where tb: "formatCoverageMarkdownTable rt (coverage w) = Inr table"
    using formatCoverageMarkdownTable_returns by blast
  let ?pre = "case truthyOf (suites w ''__orangebeard_coverage__'') of
                  Some existing \<Rightarrow> []
                | None \<Rightarrow> [StartSuite (testRunId w) None [''Coverage'']]"
  have "\<exists>suite w0. getOrStartCoverageSuite cl w = (Inr (Some suite), w0)
          \<and> truthyOf (suites w0 ''__orangebeard_coverage__'') = Some suite
          \<and> w0 = w\<lparr>calls := calls w @ ?pre, suites := suites w0\<rparr>"
  proof (cases "truthyOf (suites w ''__orangebeard_coverage__'')")
    case (Some existing)
    then show ?thesis by (simp add: getOrStartCoverageSuite_def)
  next
    case None
    from assms obtain u us where
      "startSuite_r cl (calls w @ [StartSuite (testRunId w) None [''Coverage'']]) = Inr (u # us)"
      "u \<noteq> []"
      unfolding answers_def by meson
    with None show ?thesis
      by (simp add: getOrStartCoverageSuite_def bindM_def clientCall_eq truthyOf_def)
  qed
  then obtain suite w0 where
    g: "getOrStartCoverageSuite cl w = (Inr (Some suite), w0)" and
    memo: "truthyOf (suites w0 ''__orangebeard_coverage__'') = Some suite" and
    w0: "w0 = w\<lparr>calls := calls w @ ?pre, suites := suites w0\<rparr>"
    by blast
  have run0: "testRunId w0 = testRunId w" and cov0: "coverage w0 = coverage w"
    and calls0: "calls w0 = calls w @ ?pre"
    by (subst w0, simp)+
  let ?st = "StartTest AFTER (testRunId w) (Some suite) ''Coverage report''
                  ''Aggregated coverage summary reported by Vitest.''"
  from assms obtain tu where tu: "startTest_r cl (calls w0 @ [?st]) = Inr tu"
    unfolding answers_def by meson
  let ?lg = "Log MARKDOWN INFO table (testRunId w) tu"
  from assms obtain l where l: "log_r cl (calls w0 @ [?st, ?lg]) = Inr l"
    unfolding answers_def by meson
  let ?ft = "FinishTest tu (testRunId w) (Status PASSED)"
  from assms have f: "finishTest_r cl (calls w0 @ [?st, ?lg, ?ft]) = Inr ()"
    unfolding answers_def by meson
  let ?w1 = "w0\<lparr>calls := calls w0 @ [?st, ?lg, ?ft]\<rparr>"
  have "coverageReport rt cl w = (Inr (), ?w1)"
    using g tu l f tb run0 cov0
    by (simp add: coverageReport_def bindM_def clientCall_eq)
  moreover have "truthyOf (suites ?w1 ''__orangebeard_coverage__'') = Some suite"
    using memo by simp
  moreover have "calls ?w1 = calls w @ ?pre @ [?st, ?lg, ?ft]"
    using calls0 by simp
  ultimately show ?thesis using tb by blast
qed

lemma reportCoverageSummary_total:
  "\<exists>w'. reportCoverageSummary rt cl w = (Inr (), w')"
  by (cases "coverageReport rt cl w")
     (auto simp: reportCoverageSummary_def split: sum.splits)

text \<open>
  Claim C6. With a coverage snapshot present (a truthy value), \<open>reportCoverageSummary\<close>
  returns whatever the client does, and clears the snapshot. It only adds client calls;
  it writes the failure note to the console exactly when the report threw. With a
  client that answers every call the calls added are: the creation of the top-level
  \<open>Coverage\<close> suite unless it is memoized, the start of the \<open>AFTER\<close> entry
  \<open>Coverage report\<close> in that suite, one markdown log with the rendered table, and its
  finish with \<open>PASSED\<close>; nothing is written to the console. And whenever the uploads
  awaited by \<open>onTestRunEnd\<close> are fulfilled, the call that follows the report is the
  \<open>finishTestRun\<close> of the run.
\<close>

theorem coverage_report_at_run_end:
  assumes "truthy (coverage w)"
  shows "\<exists>w'. reportCoverageSummary rt cl w = (Inr (), w')
          \<and> coverage w' = JUndefined
          \<and> extends isReporting w (w'\<lparr>coverage := coverage w, diagnostics := diagnostics w\<rparr>)
          \<and> diagnostics w' =
              diagnostics w @ (if isl (fst (coverageReport rt cl w)) then [failureNote] else [])
          \<and> (answers cl \<longrightarrow>
               (\<exists>suite tu table.
                  formatCoverageMarkdownTable rt (coverage w) = Inr table
                \<and> truthyOf (suites w' ''__orangebeard_coverage__'') = Some suite
                \<and> diagnostics w' = diagnostics w
                \<and> calls w' = calls w
                    @ (case truthyOf (suites w ''__orangebeard_coverage__'') of
                         Some existing \<Rightarrow> []
                       | None \<Rightarrow> [StartSuite (testRunId w) None [''Coverage'']])
                    @ [StartTest AFTER (testRunId w) (Some suite) ''Coverage report''
                         ''Aggregated coverage summary reported by Vitest.'',
                       Log MARKDOWN INFO table (testRunId w) tu,
                       FinishTest tu (testRunId w) (Status PASSED)]))
          \<and> (\<forall>sched w0. awaitAll rt cl sched w0 = (Some (Inr ()), w) \<longrightarrow>
               (\<exists>r w2. onTestRunEnd rt cl sched w0 = (Some r, w2)
                      \<and> calls w2 = calls w' @ [FinishTestRun (testRunId w)]))"
proof -
  obtain r1 w1 where cr: "coverageReport rt cl w = (r1, w1)" by force
  from coverageReport_frame[OF cr] have fr: "extends isReporting w w1" .
  let ?w' = "w1\<lparr>diagnostics := diagnostics w1 @ (if isl r1 then [failureNote] else []),
                coverage := JUndefined\<rparr>"
  have rep: "reportCoverageSummary rt cl w = (Inr (), ?w')"
    using assms cr by (cases r1) (simp_all add: reportCoverageSummary_def failureNote_def)
  have c1: "coverage ?w' = JUndefined" by simp
  have c2: "extends isReporting w (?w'\<lparr>coverage := coverage w, diagnostics := diagnostics w\<rparr>)"
    using fr by (auto simp: extends_def)
  have c3: "diagnostics ?w' =
              diagnostics w @ (if isl (fst (coverageReport rt cl w)) then [failureNote] else [])"
    using fr cr by (auto simp: extends_def)
  have c4: "\<exists>suite tu table.
                  formatCoverageMarkdownTable rt (coverage w) = Inr table
                \<and> truthyOf (suites ?w' ''__orangebeard_coverage__'') = Some suite
                \<and> diagnostics ?w' = diagnostics w
                \<and> calls ?w' = calls w
                    @ (case truthyOf (suites w ''__orangebeard_coverage__'') of
                         Some existing \<Rightarrow> []
                       | None \<Rightarrow> [StartSuite (testRunId w) None [''Coverage'']])
                    @ [StartTest AFTER (testRunId w) (Some suite) ''Coverage report''
                         ''Aggregated coverage summary reported by Vitest.'',
                       Log MARKDOWN INFO table (testRunId w) tu,
                       FinishTest tu (testRunId w) (Status PASSED)]"
    if "answers cl"
  proof -
    from coverageReport_answers[OF that, of rt w] cr fr show ?thesis
      by (auto simp: extends_def)
  qed
  have c5: "\<exists>r w2. onTestRunEnd rt cl sched w0 = (Some r, w2)
                      \<and> calls w2 = calls ?w' @ [FinishTestRun (testRunId w)]"
    if "awaitAll rt cl sched w0 = (Some (Inr ()), w)" for sched w0
    using that rep fr by (auto simp: onTestRunEnd_def clientCall_eq extends_def)
  from rep c1 c2 c3 c4 c5 show ?thesis by (intro exI[of _ ?w'] conjI allI impI) auto
qed


lemma answers_fakeClient: "answers fakeClient"
  by (simp add: answers_def fakeClient_def)

text \<open>The run of the reporter test: a run start, a coverage snapshot, the run end.\<close>

theorem coverage_report_at_run_end_witness:
  "truthy (coverage (onCoverage sampleCoverage (snd (onTestRunStart fakeClient newReporter))))
   \<and> answers fakeClient
   \<and> awaitAll sampleRuntime fakeClient []
         (onCoverage sampleCoverage (snd (onTestRunStart fakeClient newReporter)))
       = (Some (Inr ()), onCoverage sampleCoverage (snd (onTestRunStart fakeClient newReporter)))
   \<and> coverage (snd (reportCoverageSummary sampleRuntime fakeClient
         (onCoverage sampleCoverage (snd (onTestRunStart fakeClient newReporter)))))
       = JUndefined
   \<and> fst (onTestRunEnd sampleRuntime fakeClient []
          (onCoverage sampleCoverage (snd (onTestRunStart fakeClient newReporter))))
     = Some (Inr ())
   \<and> calls (snd (onTestRunEnd sampleRuntime fakeClient []
          (onCoverage sampleCoverage (snd (onTestRunStart fakeClient newReporter)))))
     = [StartTestRun ''Vitest reporter tests''
          ''Unit tests for Orangebeard Vitest reporter'' [],
        StartSuite (Some ''run-uuid'') None [''Coverage''],
        StartTest AFTER (Some ''run-uuid'') (Some ''suite-uuid'') ''Coverage report''
          ''Aggregated coverage summary reported by Vitest.'',
        Log MARKDOWN INFO sampleCoverageTable (Some ''run-uuid'') ''test-uuid'',
        FinishTest ''test-uuid'' (Some ''run-uuid'') (Status PASSED),
        FinishTestRun (Some ''run-uuid'')]"
proof -
  let ?w = "onCoverage sampleCoverage (snd (onTestRunStart fakeClient newReporter))"
  have present: "truthy (coverage ?w)"
    by (simp add: onCoverage_def sampleCoverage_def)
  have settled: "awaitAll sampleRuntime fakeClient [] ?w = (Some (Inr ()), ?w)"
    by (simp add: promiseAll_def onCoverage_def onTestRunStart_def newReporter_def
                  bindM_def clientCall_eq truthyOf_def fakeClient_def)
  from coverage_report_at_run_end [OF present, of sampleRuntime fakeClient]
  have cleared: "coverage (snd (reportCoverageSummary sampleRuntime fakeClient ?w)) = JUndefined"
    by (elim exE conjE) simp
  have ret: "fst (onTestRunEnd sampleRuntime fakeClient [] ?w) = Some (Inr ())" by code_simp
  have cs: "calls (snd (onTestRunEnd sampleRuntime fakeClient [] ?w))
     = [StartTestRun ''Vitest reporter tests''
          ''Unit tests for Orangebeard Vitest reporter'' [],
        StartSuite (Some ''run-uuid'') None [''Coverage''],
        StartTest AFTER (Some ''run-uuid'') (Some ''suite-uuid'') ''Coverage report''
          ''Aggregated coverage summary reported by Vitest.'',
        Log MARKDOWN INFO sampleCoverageTable (Some ''run-uuid'') ''test-uuid'',
        FinishTest ''test-uuid'' (Some ''run-uuid'') (Status PASSED),
        FinishTestRun (Some ''run-uuid'')]"
    by code_simp
  show ?thesis
    by (intro conjI present answers_fakeClient settled cleared ret cs)
qed

text \<open>
  With a client whose \<open>startTest\<close> throws, the report fails after the suite was created:
  the failure is noted on the console, the snapshot is cleared and the run is closed.
\<close>

lemma coverage_report_failure_example:
  "fst (onTestRunEnd sampleRuntime failingClient []
          (onCoverage sampleCoverage (snd (onTestRunStart failingClient newReporter))))
     = Some (Inr ())
   \<and> calls (snd (onTestRunEnd sampleRuntime failingClient []
          (onCoverage sampleCoverage (snd (onTestRunStart failingClient newReporter)))))
     = [StartTestRun ''Vitest reporter tests''
          ''Unit tests for Orangebeard Vitest reporter'' [],
        StartSuite (Some ''run-uuid'') None [''Coverage''],
        StartTest AFTER (Some ''run-uuid'') (Some ''suite-uuid'') ''Coverage report''
          ''Aggregated coverage summary reported by Vitest.'',
        FinishTestRun (Some ''run-uuid'')]
   \<and> diagnostics (snd (onTestRunEnd sampleRuntime failingClient []
          (onCoverage sampleCoverage (snd (onTestRunStart failingClient newReporter)))))
     = [failureNote]
   \<and> truthy (coverage (snd (onTestRunEnd sampleRuntime failingClient []
          (onCoverage sampleCoverage (snd (onTestRunStart failingClient newReporter))))))
     = False"
  by code_simp

section \<open>Uploads at the end of the run\<close>

text \<open>
  \<open>onTestRunEnd\<close> awaits \<open>Promise.all\<close> of the uploads. Once one of them is rejected
  the method throws at that \<open>await\<close>: neither the coverage report nor \<open>finishTestRun\<close>
  is reached.
\<close>

lemma onTestRunEnd_rejected:
  assumes "rejection (promises w) = Some e"
  shows "onTestRunEnd rt cl sched w = (Some (Inl e), w)"
  using assms by (cases sched) (simp_all add: onTestRunEnd_def promiseAll_def)

text \<open>
  When the \<open>await\<close> resumes normally, every upload is fulfilled; and \<open>onTestRunEnd\<close>
  returns normally only after that, with \<open>finishTestRun\<close> as its last call.
\<close>

lemma awaitAll_resumes_fulfilled:
  "awaitAll rt cl sched w = (Some (Inr ()), w1) \<Longrightarrow>
     list_all (\<lambda>u. up_state u = Fulfilled) (promises w1)"
proof (induction sched arbitrary: w)
  case Nil
  then show ?case
    by (auto simp: promiseAll_def split: option.splits if_splits)
next
  case (Cons i sched)
  show ?case
  proof (cases "promiseAll (promises w)")
    case None
    with Cons.prems have "awaitAll rt cl sched (logAttachmentFromPath rt cl i w) = (Some (Inr ()), w1)"
      by simp
    then show ?thesis by (rule Cons.IH)
  next
    case (Some r)
    with Cons.prems have "w1 = w" "promiseAll (promises w) = Some (Inr ())" by auto
    then show ?thesis
      by (auto simp: promiseAll_def split: option.splits if_splits)
  qed
qed

lemma onTestRunEnd_closes_after_uploads:
  assumes "onTestRunEnd rt cl sched w = (Some (Inr ()), w2)"
  shows "\<exists>w1 w1'. awaitAll rt cl sched w = (Some (Inr ()), w1)
           \<and> list_all (\<lambda>u. up_state u = Fulfilled) (promises w1)
           \<and> reportCoverageSummary rt cl w1 = (Inr (), w1')
           \<and> calls w2 = calls w1' @ [FinishTestRun (testRunId w1')]"
proof -
  obtain a w1 where aw: "awaitAll rt cl sched w = (a, w1)" by force
  with assms have a: "a = Some (Inr ())"
    by (auto simp: onTestRunEnd_def split: option.splits sum.splits prod.splits)
  obtain w1' where rep: "reportCoverageSummary rt cl w1 = (Inr (), w1')"
    using reportCoverageSummary_total by blast
  from assms aw a rep have "calls w2 = calls w1' @ [FinishTestRun (testRunId w1')]"
    by (auto simp: onTestRunEnd_def clientCall_eq)
  with aw a rep awaitAll_resumes_fulfilled[of rt cl sched w w1] show ?thesis by blast
qed

text \<open>The upload scenario of the reporter test, followed by the end of the run.\<close>

lemma run_end_with_successful_upload_example:
  "fst (runEvents sampleRuntime fakeClient
          [RunStart, CaseReady (sampleTest ''t-3'' ''attachment test'' ''passed''),
           ArtifactRecord (sampleTest ''t-3'' ''attachment test'' ''passed'')
             \<lparr>art_path = Some ''/repo/artifacts/screenshot.png'', art_fileName = None,
              art_contentType = Some ''image/png''\<rparr>,
           RunEnd [0]] newReporter)
     = Some (Inr ())
   \<and> map up_state (promises (snd (runEvents sampleRuntime fakeClient
          [RunStart, CaseReady (sampleTest ''t-3'' ''attachment test'' ''passed''),
           ArtifactRecord (sampleTest ''t-3'' ''attachment test'' ''passed'')
             \<lparr>art_path = Some ''/repo/artifacts/screenshot.png'', art_fileName = None,
              art_contentType = Some ''image/png''\<rparr>,
           RunEnd [0]] newReporter)))
     = [Fulfilled]
   \<and> calls (snd (runEvents sampleRuntime fakeClient
          [RunStart, CaseReady (sampleTest ''t-3'' ''attachment test'' ''passed''),
           ArtifactRecord (sampleTest ''t-3'' ''attachment test'' ''passed'')
             \<lparr>art_path = Some ''/repo/artifacts/screenshot.png'', art_fileName = None,
              art_contentType = Some ''image/png''\<rparr>,
           RunEnd [0]] newReporter))
     = [StartTestRun ''Vitest reporter tests''
          ''Unit tests for Orangebeard Vitest reporter'' [],
        StartSuite (Some ''run-uuid'') None [''tests/sample.test.ts''],
        StartSuite (Some ''run-uuid'') (Some ''suite-uuid'') [''sample suite''],
        StartTest TEST (Some ''run-uuid'') (Some ''suite-uuid'') ''attachment test''
          ''/repo/tests/sample.test.ts:10'',
        Log MARKDOWN INFO ''Attachment: /repo/artifacts/screenshot.png''
          (Some ''run-uuid'') ''test-uuid'',
        SendAttachment ''screenshot.png'' ''file-bytes'' ''image/png''
          (Some ''run-uuid'') ''test-uuid'' ''log-uuid'',
        FinishTestRun (Some ''run-uuid'')]"
  by code_simp

text \<open>
  Claim C1, at a failing input. Two artifacts are recorded for a started test; the file
  of the first never appears, so its upload is rejected. The run end then throws while
  the second upload is still pending, and the client never receives \<open>finishTestRun\<close>.
\<close>

theorem run_end_aborted_by_failed_upload:
  "fst (runEvents sampleRuntime fakeClient
          [RunStart, CaseReady (sampleTest ''t-3'' ''attachment test'' ''passed''),
           ArtifactRecord (sampleTest ''t-3'' ''attachment test'' ''passed'')
             \<lparr>art_path = Some ''/repo/artifacts/missing.png'', art_fileName = None,
              art_contentType = Some ''image/png''\<rparr>,
           ArtifactRecord (sampleTest ''t-3'' ''attachment test'' ''passed'')
             \<lparr>art_path = Some ''/repo/artifacts/screenshot.png'', art_fileName = None,
              art_contentType = Some ''image/png''\<rparr>,
           RunEnd [0, 1]] newReporter)
     = Some (Inl ''Timeout'')
   \<and> map up_state (promises (snd (runEvents sampleRuntime fakeClient
          [RunStart, CaseReady (sampleTest ''t-3'' ''attachment test'' ''passed''),
           ArtifactRecord (sampleTest ''t-3'' ''attachment test'' ''passed'')
             \<lparr>art_path = Some ''/repo/artifacts/missing.png'', art_fileName = None,
              art_contentType = Some ''image/png''\<rparr>,
           ArtifactRecord (sampleTest ''t-3'' ''attachment test'' ''passed'')
             \<lparr>art_path = Some ''/repo/artifacts/screenshot.png'', art_fileName = None,
              art_contentType = Some ''image/png''\<rparr>,
           RunEnd [0, 1]] newReporter)))
     = [Rejected ''Timeout'', Pending]
   \<and> calls (snd (runEvents sampleRuntime fakeClient
          [RunStart, CaseReady (sampleTest ''t-3'' ''attachment test'' ''passed''),
           ArtifactRecord (sampleTest ''t-3'' ''attachment test'' ''passed'')
             \<lparr>art_path = Some ''/repo/artifacts/missing.png'', art_fileName = None,
              art_contentType = Some ''image/png''\<rparr>,
           ArtifactRecord (sampleTest ''t-3'' ''attachment test'' ''passed'')
             \<lparr>art_path = Some ''/repo/artifacts/screenshot.png'', art_fileName = None,
              art_contentType = Some ''image/png''\<rparr>,
           RunEnd [0, 1]] newReporter))
     = [StartTestRun ''Vitest reporter tests''
          ''Unit tests for Orangebeard Vitest reporter'' [],
        StartSuite (Some ''run-uuid'') None [''tests/sample.test.ts''],
        StartSuite (Some ''run-uuid'') (Some ''suite-uuid'') [''sample suite''],
        StartTest TEST (Some ''run-uuid'') (Some ''suite-uuid'') ''attachment test''
          ''/repo/tests/sample.test.ts:10'',
        Log MARKDOWN INFO ''Attachment: /repo/artifacts/missing.png''
          (Some ''run-uuid'') ''test-uuid'',
        Log MARKDOWN INFO ''Attachment: /repo/artifacts/screenshot.png''
          (Some ''run-uuid'') ''test-uuid'']"
  by code_simp

section \<open>Suites are memoized by the joined segments of a path prefix\<close>

lemma join_append:
  "xs \<noteq> [] \<Longrightarrow> ys \<noteq> [] \<Longrightarrow> join sep (xs @ ys) = join sep xs @ sep @ join sep ys"
proof (induction sep xs rule: join.induct)
  case (1 sep)
  then show ?case by simp
next
  case (2 sep x)
  then show ?case by (cases ys) simp_all
next
  case (3 sep x y zs)
  then show ?case by simp
qed

lemma longer_key:
  assumes "path \<noteq> []"
  shows "join ''|'' ((keyParts @ [segment]) @ take (Suc i) path) \<noteq> join ''|'' (keyParts @ [segment])"
proof -
  have "take (Suc i) path \<noteq> []" using assms by (cases path) auto
  then have "join ''|'' ((keyParts @ [segment]) @ take (Suc i) path)
      = join ''|'' (keyParts @ [segment]) @ ''|'' @ join ''|'' (take (Suc i) path)"
    by (intro join_append) simp_all
  then show ?thesis by simp
qed

lemma upt_Suc_shift: "[0..<Suc n] = 0 # map Suc [0..<n]"
  by (simp add: upt_conv_Cons map_Suc_upt del: upt_Suc)

lemma newSuiteCalls_Cons:
  "newSuiteCalls run parent memo memo' keyParts (segment # path) =
     (if truthyOf (memo (join ''|'' (keyParts @ [segment]))) = None
      then [StartSuite run parent [segment]] else [])
     @ map (\<lambda>i. StartSuite run (memo' (join ''|'' ((keyParts @ [segment]) @ take i path)))
                  [path ! i])
         (filter (\<lambda>i. truthyOf (memo (join ''|'' ((keyParts @ [segment]) @ take (Suc i) path)))
                         = None)
            [0..<length path])"
  unfolding newSuiteCalls_def
  by (simp add: upt_Suc_shift filter_map comp_def del: upt_Suc)


lemma newSuiteCalls_parent:
  assumes "memo' (join ''|'' keyParts) = parent"
  shows "newSuiteCalls run parent memo memo' keyParts path =
     map (\<lambda>i. StartSuite run (memo' (join ''|'' (keyParts @ take i path))) [path ! i])
       (filter (\<lambda>i. truthyOf (memo (join ''|'' (keyParts @ take (Suc i) path))) = None)
          [0..<length path])"
  unfolding newSuiteCalls_def using assms by (intro map_cong) auto

lemma newSuiteCalls_memo_cong:
  assumes "\<And>i. i < length path \<Longrightarrow>
             memo (join ''|'' (keyParts @ take (Suc i) path))
             = memo2 (join ''|'' (keyParts @ take (Suc i) path))"
  shows "newSuiteCalls run parent memo memo' keyParts path
         = newSuiteCalls run parent memo2 memo' keyParts path"
  unfolding newSuiteCalls_def using assms by (intro arg_cong[where f="map _"] filter_cong) auto

lemma suiteLoop_memo:
  assumes "answers cl"
  shows "\<exists>r w1. suiteLoop cl path keyParts parent w = (Inr r, w1)
     \<and> calls w1 = calls w
         @ newSuiteCalls (testRunId w) parent (suites w) (suites w1) keyParts path
     \<and> (\<forall>i<length path.
           truthyOf (suites w1 (join ''|'' (keyParts @ take (Suc i) path))) \<noteq> None)
     \<and> (\<forall>k v. truthyOf (suites w k) = Some v \<longrightarrow> suites w1 k = Some v)
     \<and> (\<forall>k. (\<forall>i<length path. k \<noteq> join ''|'' (keyParts @ take (Suc i) path))
            \<longrightarrow> suites w1 k = suites w k)
     \<and> r = (if path = [] then parent else suites w1 (join ''|'' (keyParts @ path)))
     \<and> testRunId w1 = testRunId w"
proof (induction path arbitrary: keyParts parent w)
  case Nil
  show ?case by (simp add: newSuiteCalls_def truthyOf_Some)
next
  case (Cons segment path)
  let ?kp = "keyParts @ [segment]"
  let ?key = "join ''|'' ?kp"
  have shift: "\<And>i. keyParts @ take (Suc (Suc i)) (segment # path) = ?kp @ take (Suc i) path"
    and shift0: "keyParts @ take (Suc 0) (segment # path) = ?kp"
    and whole: "keyParts @ segment # path = ?kp @ path"
    by simp_all
  have other: "\<And>i. i < length path \<Longrightarrow> join ''|'' (?kp @ take (Suc i) path) \<noteq> ?key"
    using longer_key[of path keyParts segment] by fastforce
  then have other': "\<And>i. i < length path \<Longrightarrow>
      join ''|'' (keyParts @ segment # take (Suc i) path) \<noteq> join ''|'' (keyParts @ [segment])"
    by simp
  show ?case
  proof (cases "truthyOf (suites w ?key)")
    case (Some existing)
    then have hit: "suites w ?key = Some existing" "existing \<noteq> []"
      by (simp_all add: truthyOf_Some)
    from Cons.IH[of ?kp "Some existing" w] obtain r w1 where
      loop: "suiteLoop cl path ?kp (Some existing) w = (Inr r, w1)" and
      cs: "calls w1 = calls w
             @ newSuiteCalls (testRunId w) (Some existing) (suites w) (suites w1) ?kp path" and
      all: "\<forall>i<length path. truthyOf (suites w1 (join ''|'' (?kp @ take (Suc i) path))) \<noteq> None" and
      pres: "\<forall>k v. truthyOf (suites w k) = Some v \<longrightarrow> suites w1 k = Some v" and
      only: "\<forall>k. (\<forall>i<length path. k \<noteq> join ''|'' (?kp @ take (Suc i) path))
                 \<longrightarrow> suites w1 k = suites w k" and
      res: "r = (if path = [] then Some existing else suites w1 (join ''|'' (?kp @ path)))" and
      run: "testRunId w1 = testRunId w"
      by blast
    from pres Some have memo1: "suites w1 ?key = Some existing" by simp
    have g1: "suiteLoop cl (segment # path) keyParts parent w = (Inr r, w1)"
      using Some loop by simp
    have g2: "calls w1 = calls w
         @ newSuiteCalls (testRunId w) parent (suites w) (suites w1) keyParts (segment # path)"
      using cs Some newSuiteCalls_parent[where memo'="suites w1" and keyParts="?kp" and run="testRunId w"
              and memo="suites w" and path=path, OF memo1]
      by (simp add: newSuiteCalls_Cons)
    have g3: "\<forall>i<length (segment # path).
           truthyOf (suites w1 (join ''|'' (keyParts @ take (Suc i) (segment # path)))) \<noteq> None"
    proof (intro allI impI)
      fix i assume "i < length (segment # path)"
      then show "truthyOf (suites w1 (join ''|'' (keyParts @ take (Suc i) (segment # path)))) \<noteq> None"
        using all memo1 hit(2) by (cases i) (simp_all add: truthyOf_def)
    qed
    have g5: "\<forall>k. (\<forall>i<length (segment # path).
                  k \<noteq> join ''|'' (keyParts @ take (Suc i) (segment # path)))
            \<longrightarrow> suites w1 k = suites w k"
    proof (intro allI impI)
      fix k assume a: "\<forall>i<length (segment # path).
                  k \<noteq> join ''|'' (keyParts @ take (Suc i) (segment # path))"
      have "\<forall>i<length path. k \<noteq> join ''|'' (?kp @ take (Suc i) path)"
      proof (intro allI impI)
        fix i assume "i < length path"
        then have "Suc i < length (segment # path)" by simp
        with a have "k \<noteq> join ''|'' (keyParts @ take (Suc (Suc i)) (segment # path))" by blast
        then show "k \<noteq> join ''|'' (?kp @ take (Suc i) path)" by simp
      qed
      with only show "suites w1 k = suites w k" by blast
    qed
    have g6: "r = (if segment # path = [] then parent
                   else suites w1 (join ''|'' (keyParts @ segment # path)))"
      using res memo1 by (cases "path = []") simp_all
    from g1 g2 g3 pres g5 g6 run show ?thesis by blast
  next
    case None
    let ?c = "StartSuite (testRunId w) parent [segment]"
    from assms obtain u us where
      a: "startSuite_r cl (calls w @ [?c]) = Inr (u # us)" and u: "u \<noteq> []"
      unfolding answers_def by meson
    let ?w' = "w\<lparr>calls := calls w @ [?c], suites := (suites w)(?key \<mapsto> u)\<rparr>"
    from Cons.IH[of ?kp "Some u" ?w'] obtain r w1 where
      loop: "suiteLoop cl path ?kp (Some u) ?w' = (Inr r, w1)" and
      cs: "calls w1 = calls ?w'
             @ newSuiteCalls (testRunId ?w') (Some u) (suites ?w') (suites w1) ?kp path" and
      all: "\<forall>i<length path. truthyOf (suites w1 (join ''|'' (?kp @ take (Suc i) path))) \<noteq> None" and
      pres: "\<forall>k v. truthyOf (suites ?w' k) = Some v \<longrightarrow> suites w1 k = Some v" and
      only: "\<forall>k. (\<forall>i<length path. k \<noteq> join ''|'' (?kp @ take (Suc i) path))
                 \<longrightarrow> suites w1 k = suites ?w' k" and
      res: "r = (if path = [] then Some u else suites w1 (join ''|'' (?kp @ path)))" and
      run: "testRunId w1 = testRunId ?w'"
      by blast
    have "truthyOf (suites ?w' ?key) = Some u" using u by (simp add: truthyOf_def)
    with pres have memo1: "suites w1 ?key = Some u" by blast
    have g1: "suiteLoop cl (segment # path) keyParts parent w = (Inr r, w1)"
      using None a loop by (simp add: clientCall_eq)
    have same: "newSuiteCalls (testRunId w) (Some u) (suites ?w') (suites w1) ?kp path
                = newSuiteCalls (testRunId w) (Some u) (suites w) (suites w1) ?kp path"
      by (rule newSuiteCalls_memo_cong) (simp add: other')
    have g2: "calls w1 = calls w
         @ newSuiteCalls (testRunId w) parent (suites w) (suites w1) keyParts (segment # path)"
      using cs None same newSuiteCalls_parent[where memo'="suites w1" and keyParts="?kp" and run="testRunId w"
              and memo="suites w" and path=path, OF memo1]
      by (simp add: newSuiteCalls_Cons)
    have g3: "\<forall>i<length (segment # path).
           truthyOf (suites w1 (join ''|'' (keyParts @ take (Suc i) (segment # path)))) \<noteq> None"
    proof (intro allI impI)
      fix i assume "i < length (segment # path)"
      then show "truthyOf (suites w1 (join ''|'' (keyParts @ take (Suc i) (segment # path)))) \<noteq> None"
        using all memo1 u by (cases i) (simp_all add: truthyOf_def)
    qed
    have g4: "\<forall>k v. truthyOf (suites w k) = Some v \<longrightarrow> suites w1 k = Some v"
    proof (intro allI impI)
      fix k v assume t: "truthyOf (suites w k) = Some v"
      with None have "k \<noteq> ?key" by auto
      with t have "truthyOf (suites ?w' k) = Some v" by simp
      with pres show "suites w1 k = Some v" by blast
    qed
    have g5: "\<forall>k. (\<forall>i<length (segment # path).
                  k \<noteq> join ''|'' (keyParts @ take (Suc i) (segment # path)))
            \<longrightarrow> suites w1 k = suites w k"
    proof (intro allI impI)
      fix k assume a: "\<forall>i<length (segment # path).
                  k \<noteq> join ''|'' (keyParts @ take (Suc i) (segment # path))"
      have "\<forall>i<length path. k \<noteq> join ''|'' (?kp @ take (Suc i) path)"
      proof (intro allI impI)
        fix i assume "i < length path"
        then have "Suc i < length (segment # path)" by simp
        with a have "k \<noteq> join ''|'' (keyParts @ take (Suc (Suc i)) (segment # path))" by blast
        then show "k \<noteq> join ''|'' (?kp @ take (Suc i) path)" by simp
      qed
      with only have "suites w1 k = suites ?w' k" by blast
      moreover from a have "k \<noteq> ?key" by fastforce
      ultimately show "suites w1 k = suites w k" by simp
    qed
    have g6: "r = (if segment # path = [] then parent
                   else suites w1 (join ''|'' (keyParts @ segment # path)))"
      using res memo1 by (cases "path = []") simp_all
    have g7: "testRunId w1 = testRunId w" using run by simp
    from g1 g2 g3 g4 g5 g6 g7 show ?thesis by blast
  qed
qed


lemma newSuiteCalls_all_memoized:
  assumes "\<forall>i<length path. truthyOf (memo (join ''|'' (keyParts @ take (Suc i) path))) \<noteq> None"
  shows "newSuiteCalls run parent memo memo' keyParts path = []"
  unfolding newSuiteCalls_def using assms by (simp add: filter_empty_conv)

text \<open>
  What the memo guarantees. Let the client answer every call and let the suite path \<open>p\<close>
  of a test be non-empty. Resolving it issues one \<open>startSuite\<close> call for each prefix of
  \<open>p\<close> whose key, its segments joined by \<open>|\<close>, is not memoized yet, and no other call, in
  the order of the prefixes; each call names as parent the suite memoized for the prefix
  one segment shorter (none for the first segment), and afterwards every prefix is
  memoized. Resolving the same path again, for this or any other test, issues no call,
  changes nothing, and yields the same suite.
\<close>

lemma suite_calls_by_memo_key:
  assumes "answers cl" and "buildSuitePath rt t = Inr p" and "p \<noteq> []"
  shows "\<exists>suite w1.
           getOrStartSuiteForTest rt cl t w = (Inr suite, w1)
         \<and> calls w1 = calls w
             @ map (\<lambda>i. StartSuite (testRunId w)
                          (if i = 0 then None else suites w1 (prefixKey p (i - 1))) [p ! i])
                 (filter (\<lambda>i. truthyOf (suites w (prefixKey p i)) = None) [0..<length p])
         \<and> (\<forall>i<length p. truthyOf (suites w1 (prefixKey p i)) \<noteq> None)
         \<and> truthyOf (suites w1 (prefixKey p (length p - 1))) = Some suite
         \<and> (\<forall>t'. buildSuitePath rt t' = Inr p \<longrightarrow>
                getOrStartSuiteForTest rt cl t' w1 = (Inr suite, w1))"
proof -
  from suiteLoop_memo[OF assms(1), of p "[]" None w] assms(3) obtain r w1 where
    loop: "suiteLoop cl p [] None w = (Inr r, w1)" and
    cs: "calls w1 = calls w @ newSuiteCalls (testRunId w) None (suites w) (suites w1) [] p" and
    all: "\<forall>i<length p. truthyOf (suites w1 (join ''|'' (take (Suc i) p))) \<noteq> None" and
    res: "r = suites w1 (join ''|'' p)"
    by auto
  have last: "prefixKey p (length p - 1) = join ''|'' p"
    using assms(3) by (simp add: prefixKey_def)
  have "length p - 1 < length p" using assms(3) by simp
  with all have "truthyOf (suites w1 (join ''|'' (take (Suc (length p - 1)) p))) \<noteq> None"
    by blast
  then have "truthyOf (suites w1 (prefixKey p (length p - 1))) \<noteq> None"
    by (simp add: prefixKey_def)
  then obtain suite where suite: "truthyOf r = Some suite"
    using res last by auto
  have g1: "getOrStartSuiteForTest rt cl t w = (Inr suite, w1)"
    using assms(2) loop suite by (simp add: getOrStartSuiteForTest_def bindM_def)
  have "newSuiteCalls (testRunId w) None (suites w) (suites w1) [] p
        = map (\<lambda>i. StartSuite (testRunId w)
                          (if i = 0 then None else suites w1 (prefixKey p (i - 1))) [p ! i])
                 (filter (\<lambda>i. truthyOf (suites w (prefixKey p i)) = None) [0..<length p])"
    unfolding newSuiteCalls_def prefixKey_def
    by (intro map_cong) auto
  with cs have g2: "calls w1 = calls w
             @ map (\<lambda>i. StartSuite (testRunId w)
                          (if i = 0 then None else suites w1 (prefixKey p (i - 1))) [p ! i])
                 (filter (\<lambda>i. truthyOf (suites w (prefixKey p i)) = None) [0..<length p])"
    by simp
  have g3: "\<forall>i<length p. truthyOf (suites w1 (prefixKey p i)) \<noteq> None"
    using all by (simp add: prefixKey_def)
  have g4: "truthyOf (suites w1 (prefixKey p (length p - 1))) = Some suite"
    using suite res last by simp
  have again: "suiteLoop cl p [] None w1 = (Inr r, w1)"
  proof -
    from suiteLoop_memo[OF assms(1), of p "[]" None w1] assms(3) obtain r2 w2 where
      loop2: "suiteLoop cl p [] None w1 = (Inr r2, w2)" and
      cs2: "calls w2 = calls w1
              @ newSuiteCalls (testRunId w1) None (suites w1) (suites w2) [] p" and
      pres2: "\<forall>k v. truthyOf (suites w1 k) = Some v \<longrightarrow> suites w2 k = Some v" and
      only2: "\<forall>k. (\<forall>i<length p. k \<noteq> join ''|'' (take (Suc i) p))
                 \<longrightarrow> suites w2 k = suites w1 k" and
      res2: "r2 = suites w2 (join ''|'' p)"
      by auto
    have "newSuiteCalls (testRunId w1) None (suites w1) (suites w2) [] p = []"
      by (rule newSuiteCalls_all_memoized) (use all in simp)
    with cs2 have c: "calls w2 = calls w1" by simp
    have m: "suites w2 = suites w1"
    proof
      fix k
      show "suites w2 k = suites w1 k"
      proof (cases "\<forall>i<length p. k \<noteq> join ''|'' (take (Suc i) p)")
        case True
        with only2 show ?thesis by blast
      next
        case False
        then obtain i where "i < length p" "k = join ''|'' (take (Suc i) p)" by blast
        with all obtain v where "truthyOf (suites w1 k) = Some v" by auto
        with pres2 show ?thesis by (simp add: truthyOf_Some)
      qed
    qed
    from suiteLoop_frame[OF loop2] c m have "w2 = w1"
      by (simp add: extends_def reporter.equality)
    with loop2 res2 res show ?thesis by simp
  qed
  have g5: "\<forall>t'. buildSuitePath rt t' = Inr p \<longrightarrow>
                getOrStartSuiteForTest rt cl t' w1 = (Inr suite, w1)"
    using again suite by (simp add: getOrStartSuiteForTest_def bindM_def)
  from g1 g2 g3 g4 g5 show ?thesis by blast
qed

text \<open>Two tests of the sample file: the second one reuses both suites.\<close>

lemma suite_calls_by_memo_key_example:
  "calls (snd (getOrStartSuiteForTest sampleRuntime fakeClient
                 (sampleTest ''t-1'' ''first'' ''passed'') newReporter))
     = [StartSuite None None [''tests/sample.test.ts''],
        StartSuite None (Some ''suite-uuid'') [''sample suite'']]
   \<and> getOrStartSuiteForTest sampleRuntime fakeClient (sampleTest ''t-2'' ''second'' ''failed'')
         (snd (getOrStartSuiteForTest sampleRuntime fakeClient
                 (sampleTest ''t-1'' ''first'' ''passed'') newReporter))
       = (Inr ''suite-uuid'',
          snd (getOrStartSuiteForTest sampleRuntime fakeClient
                 (sampleTest ''t-1'' ''first'' ''passed'') newReporter))"
proof -
  let ?t = "sampleTest ''t-1'' ''first'' ''passed''"
  let ?t' = "sampleTest ''t-2'' ''second'' ''failed''"
  let ?p = "[''tests/sample.test.ts'', ''sample suite'']"
  have p: "buildSuitePath sampleRuntime ?t = Inr ?p" by code_simp
  have p': "buildSuitePath sampleRuntime ?t' = Inr ?p" by code_simp
  have ne: "?p \<noteq> []" by simp
  have first: "fst (getOrStartSuiteForTest sampleRuntime fakeClient ?t newReporter)
                 = Inr ''suite-uuid''"
    by code_simp
  have cs: "calls (snd (getOrStartSuiteForTest sampleRuntime fakeClient ?t newReporter))
     = [StartSuite None None [''tests/sample.test.ts''],
        StartSuite None (Some ''suite-uuid'') [''sample suite'']]"
    by code_simp
  from suite_calls_by_memo_key [OF answers_fakeClient p ne, of newReporter]
  obtain suite w1 where
    g: "getOrStartSuiteForTest sampleRuntime fakeClient ?t newReporter = (Inr suite, w1)" and
    again: "\<forall>t'. buildSuitePath sampleRuntime t' = Inr ?p \<longrightarrow>
                getOrStartSuiteForTest sampleRuntime fakeClient t' w1 = (Inr suite, w1)"
    by (elim exE conjE)
  from g first have "suite = ''suite-uuid''" by simp
  moreover from g have "w1 = snd (getOrStartSuiteForTest sampleRuntime fakeClient ?t newReporter)"
    by simp
  moreover from again p' have
    "getOrStartSuiteForTest sampleRuntime fakeClient ?t' w1 = (Inr suite, w1)"
    by (elim allE[of _ ?t'] impE)
  ultimately show ?thesis using cs by simp
qed

text \<open>
  Claim C4, at failing inputs. The claim has one suite created for each distinct prefix
  of a suite path, and the suites of a path created from the file suite inwards. The code memoizes a prefix
  under its segments joined by \<open>|\<close>, so two distinct prefixes can share a key: after a
  test in the suite \<open>A|B\<close> of a file, a test of the same file with the path \<open>A\<close>, \<open>B\<close> gets
  the new suite \<open>A\<close> (the fourth call, answered with \<open>suite-4\<close>) but no suite \<open>B\<close>, and
  is started in the suite \<open>A|B\<close>, which is \<open>suite-2\<close>. And \<open>buildSuitePath\<close> follows the
  parent links from the test outwards, so for a test in the suite \<open>inner\<close>, itself inside
  the suite \<open>outer\<close>, the suite \<open>outer\<close> is created after \<open>inner\<close> and as its child.
\<close>

theorem suite_prefixes_share_a_key:
  "buildSuitePath sampleRuntime (inSuites ''t-1'' ''first'' [Some ''A|B'', None])
     = Inr [''tests/sample.test.ts'', ''A|B'']
   \<and> buildSuitePath sampleRuntime (inSuites ''t-2'' ''second'' [Some ''A'', Some ''B'', None])
     = Inr [''tests/sample.test.ts'', ''A'', ''B'']
   \<and> fst (runEvents sampleRuntime countingClient
            [CaseReady (inSuites ''t-1'' ''first'' [Some ''A|B'', None]),
             CaseReady (inSuites ''t-2'' ''second'' [Some ''A'', Some ''B'', None])]
            newReporter) = Some (Inr ())
   \<and> calls (snd (runEvents sampleRuntime countingClient
            [CaseReady (inSuites ''t-1'' ''first'' [Some ''A|B'', None]),
             CaseReady (inSuites ''t-2'' ''second'' [Some ''A'', Some ''B'', None])]
            newReporter))
     = [StartSuite None None [''tests/sample.test.ts''],
        StartSuite None (Some ''suite-1'') [''A|B''],
        StartTest TEST None (Some ''suite-2'') ''first'' ''/repo/tests/sample.test.ts:10'',
        StartSuite None (Some ''suite-1'') [''A''],
        StartTest TEST None (Some ''suite-2'') ''second'' ''/repo/tests/sample.test.ts:10'']
   \<and> fst (runEvents sampleRuntime countingClient
            [CaseReady (inSuites ''t-3'' ''third'' [Some ''inner'', Some ''outer'', None])]
            newReporter) = Some (Inr ())
   \<and> calls (snd (runEvents sampleRuntime countingClient
            [CaseReady (inSuites ''t-3'' ''third'' [Some ''inner'', Some ''outer'', None])]
            newReporter))
     = [StartSuite None None [''tests/sample.test.ts''],
        StartSuite None (Some ''suite-1'') [''inner''],
        StartSuite None (Some ''suite-2'') [''outer''],
        StartTest TEST None (Some ''suite-3'') ''third'' ''/repo/tests/sample.test.ts:10'']"
  by code_simp

section \<open>Console logs are buffered until the test is known\<close>








lemma contentParts_strings: "contentParts rt (map JStr ss) = Inr ss"
  by (induction ss) (simp_all add: bindE_def)

lemma formatConsoleLog_string_array:
  "content lg = JArr (map JStr ss) \<Longrightarrow> \<exists>f. formatConsoleLog rt lg = Inr f"
  by (simp add: formatConsoleLog_def contentText_def contentParts_strings bindE_def Let_def)

lemma formatConsoleLog_strings:
  "\<forall>lg\<in>set ls. (\<exists>s. content lg = JStr s) \<or> (\<exists>ss. content lg = JArr (map JStr ss))
     \<Longrightarrow> \<exists>fs. map (formatConsoleLog rt) ls = map Inr fs"
proof (induction ls)
  case Nil
  then show ?case by simp
next
  case (Cons lg ls)
  then obtain fs where fs: "map (formatConsoleLog rt) ls = map Inr fs" by auto
  from Cons.prems have "(\<exists>s. content lg = JStr s) \<or> (\<exists>ss. content lg = JArr (map JStr ss))"
    by simp
  then have "\<exists>f. formatConsoleLog rt lg = Inr f"
    using formatConsoleLog_string[of lg _ rt] formatConsoleLog_string_array[of lg _ rt]
    by (elim disjE exE)
  then obtain f where "formatConsoleLog rt lg = Inr f" by (elim exE)
  with fs have "map (formatConsoleLog rt) (lg # ls) = map Inr (f # fs)" by simp
  then show ?case by (rule exI)
qed



end
